theory Spec2Isabelle
  imports Main "HOL-Library.Word"
begin

text \<open>
  The hospital and user management screens of the clinic administration dashboard:
  form validation, the form state and its handlers, submit against the REST API, the
  debounced list fetch, and the pagination window. The paginated \<open>HospitalManagement\<close>
  component and \<open>UserManagement\<close> are modelled side by side; the definitions come
  first, the properties after them.
\<close>

section \<open>JavaScript strings\<close>

text \<open>
  A JavaScript string is a sequence of UTF-16 code units. Property names and the
  messages written in the source are ASCII literals and are kept as HOL strings; the
  values typed by the user or delivered by the API are \<open>jsstring\<close>s.
\<close>

type_synonym jschar = "16 word"
type_synonym jsstring = "jschar list"

definition js :: "string \<Rightarrow> jsstring" where
  "js s = map of_char s"

text \<open>The class \<open>\d\<close> (without the unicode flag): the ten ASCII digits.\<close>

definition isDigit :: "jschar \<Rightarrow> bool" where
  "isDigit c = (0x30 \<le> c \<and> c \<le> 0x39)"

text \<open>
  The class \<open>\s\<close>: ECMAScript WhiteSpace and LineTerminator code points. The same set
  is what \<open>String.prototype.trim\<close> removes.
\<close>

definition isSpace :: "jschar \<Rightarrow> bool" where
  "isSpace c =
     (c = 0x09 \<or> c = 0x0A \<or> c = 0x0B \<or> c = 0x0C \<or> c = 0x0D \<or> c = 0x20 \<or> c = 0xA0
      \<or> c = 0x1680 \<or> (0x2000 \<le> c \<and> c \<le> 0x200A) \<or> c = 0x2028 \<or> c = 0x2029
      \<or> c = 0x202F \<or> c = 0x205F \<or> c = 0x3000 \<or> c = 0xFEFF)"

definition trim :: "jsstring \<Rightarrow> jsstring" where
  "trim s = rev (dropWhile isSpace (rev (dropWhile isSpace s)))"

text \<open>Truthiness of a string-valued property: \<open>undefined\<close> and \<open>''\<close> are falsy.\<close>

definition truthy :: "'a list option \<Rightarrow> bool" where
  "truthy v = (case v of None \<Rightarrow> False | Some s \<Rightarrow> s \<noteq> [])"

section \<open>Regular expressions\<close>

text \<open>
  The patterns of the source are all of the form \<open>/^r$/\<close> without flags, so
  \<open>test\<close> succeeds exactly when the whole string matches \<open>r\<close>. The body \<open>r\<close> is
  a \<open>regex\<close>; \<open>test\<close> decides the match by derivatives.
\<close>

datatype regex =
    Never
  | Eps
  | Cls "jschar \<Rightarrow> bool"
  | Seq regex regex
  | Alt regex regex
  | Star regex

fun nullable :: "regex \<Rightarrow> bool" where
  "nullable Never = False"
| "nullable Eps = True"
| "nullable (Cls p) = False"
| "nullable (Seq r q) = (nullable r \<and> nullable q)"
| "nullable (Alt r q) = (nullable r \<or> nullable q)"
| "nullable (Star r) = True"

fun deriv :: "jschar \<Rightarrow> regex \<Rightarrow> regex" where
  "deriv c Never = Never"
| "deriv c Eps = Never"
| "deriv c (Cls p) = (if p c then Eps else Never)"
| "deriv c (Seq r q) =
     (if nullable r then Alt (Seq (deriv c r) q) (deriv c q) else Seq (deriv c r) q)"
| "deriv c (Alt r q) = Alt (deriv c r) (deriv c q)"
| "deriv c (Star r) = Seq (deriv c r) (Star r)"

fun test :: "regex \<Rightarrow> jsstring \<Rightarrow> bool" where
  "test r [] = nullable r"
| "test r (c # s) = test (deriv c r) s"

text \<open>The quantifiers \<open>r+\<close>, \<open>r{n}\<close> and \<open>r{m,n}\<close>.\<close>

definition OneOrMore :: "regex \<Rightarrow> regex" where
  "OneOrMore r = Seq r (Star r)"

fun exactly :: "nat \<Rightarrow> regex \<Rightarrow> regex" where
  "exactly 0 r = Eps"
| "exactly (Suc n) r = Seq r (exactly n r)"

fun upTo :: "nat \<Rightarrow> regex \<Rightarrow> regex" where
  "upTo 0 r = Eps"
| "upTo (Suc n) r = Alt Eps (Seq r (upTo n r))"

definition fromTo :: "nat \<Rightarrow> nat \<Rightarrow> regex \<Rightarrow> regex" where
  "fromTo m n r = Seq (exactly m r) (upTo (n - m) r)"

definition Chr :: "char \<Rightarrow> regex" where
  "Chr a = Cls (\<lambda>c. c = of_char a)"

text \<open>The language of a regex, the reference for \<open>test\<close>.\<close>

inductive_set star :: "jsstring set \<Rightarrow> jsstring set" for A :: "jsstring set" where
  star_Nil: "[] \<in> star A"
| star_App: "u \<in> A \<Longrightarrow> v \<in> star A \<Longrightarrow> u @ v \<in> star A"

fun lang :: "regex \<Rightarrow> jsstring set" where
  "lang Never = {}"
| "lang Eps = {[]}"
| "lang (Cls p) = {[c] | c. p c}"
| "lang (Seq r q) = {u @ v | u v. u \<in> lang r \<and> v \<in> lang q}"
| "lang (Alt r q) = lang r \<union> lang q"
| "lang (Star r) = star (lang r)"

text \<open>\<open>/^\d{6}$/\<close>, \<open>/^\d{10,12}$/\<close> and \<open>/^[^\s@]+@[^\s@]+\.[^\s@]+$/\<close>.\<close>

definition pinCodeRe :: regex where
  "pinCodeRe = fromTo 6 6 (Cls isDigit)"

definition phoneRe :: regex where
  "phoneRe = fromTo 10 12 (Cls isDigit)"

definition notSpaceAt :: "jschar \<Rightarrow> bool" where
  "notSpaceAt c = (\<not> (isSpace c \<or> c = of_char CHR ''@''))"

definition emailRe :: regex where
  "emailRe = Seq (OneOrMore (Cls notSpaceAt)) (Seq (Chr CHR ''@'')
               (Seq (OneOrMore (Cls notSpaceAt)) (Seq (Chr CHR ''.'') (OneOrMore (Cls notSpaceAt)))))"

text \<open>\<open>s.replace(/[-()\s]/g, '')\<close>: every separator character is removed.\<close>

definition isSeparator :: "jschar \<Rightarrow> bool" where
  "isSeparator c =
     (c = of_char CHR ''-'' \<or> c = of_char CHR ''('' \<or> c = of_char CHR '')'' \<or> isSpace c)"

definition stripSeparators :: "jsstring \<Rightarrow> jsstring" where
  "stripSeparators s = filter (\<lambda>c. \<not> isSeparator c) s"

section \<open>Pagination window\<close>

text \<open>
  The numbered buttons of both list screens:
  \<open>Array.from({ length: Math.min(totalPages, 5) }, (_, i) => ...)\<close>, rendered only
  inside \<open>{totalPages > 1 && (...)}\<close>. \<open>None\<close> is the control not being rendered.
\<close>

definition pageNumber :: "int \<Rightarrow> int \<Rightarrow> int \<Rightarrow> int" where
  "pageNumber totalPages currentPage i =
     (if totalPages \<le> 5 then i + 1
      else if currentPage \<le> 3 then i + 1
      else if currentPage \<ge> totalPages - 2 then totalPages - 4 + i
      else currentPage - 2 + i)"

definition pageButtons :: "int \<Rightarrow> int \<Rightarrow> int list" where
  "pageButtons totalPages currentPage =
     map (\<lambda>i. pageNumber totalPages currentPage (int i)) [0..<nat (min totalPages 5)]"

definition paginationControls :: "int \<Rightarrow> int \<Rightarrow> int list option" where
  "paginationControls totalPages currentPage =
     (if totalPages > 1 then Some (pageButtons totalPages currentPage) else None)"

section \<open>Values, requests and the API\<close>

text \<open>
  Objects are finite maps from property names to values; a property holding
  \<open>undefined\<close> is an absent key. \<open>DateOf v\<close> is the object \<open>new Date(v)\<close>.
  Property names are taken not to collide with members of \<open>Object.prototype\<close>.
\<close>

type_synonym hospital = "string \<rightharpoonup> jsstring"

datatype jsval =
    Str jsstring
  | Num int
  | Bool bool
  | DateOf "jsstring option"
  | Obj hospital

type_synonym jsobject = "string \<rightharpoonup> jsval"

text \<open>
  What a property of a user or of the user form holds: a string, a boolean, or the
  embedded \<open>hospital_details\<close>.
\<close>

datatype uval =
    UStr jsstring
  | UBool bool
  | UObj hospital

type_synonym uobject = "string \<rightharpoonup> uval"

definition asJs :: "uval \<Rightarrow> jsval" where
  "asJs v = (case v of UStr s \<Rightarrow> Str s | UBool b \<Rightarrow> Bool b | UObj h \<Rightarrow> Obj h)"

datatype request =
    GET jsstring jsobject
  | POST jsstring jsobject
  | PUT jsstring jsobject
  | DELETE jsstring

text \<open>The body of a create or update request.\<close>

definition payloadOf :: "request \<Rightarrow> jsobject option" where
  "payloadOf rq = (case rq of POST url body \<Rightarrow> Some body | PUT url body \<Rightarrow> Some body | _ \<Rightarrow> None)"

text \<open>
  The part of an axios response the screens read: \<open>response.status\<close> and, under
  \<open>response.data?.data\<close>, the properties \<open>hospitals\<close>, \<open>users\<close>,
  \<open>totalCount\<close> and \<open>page\<close>. The API answers a request, knowing the requests it
  has received before; \<open>None\<close> is a rejected promise (transport failure or an HTTP
  error status).
\<close>

record response =
  status :: nat
  dataHospitals :: "hospital list option"
  dataUsers :: "uobject list option"
  dataTotalCount :: "int option"
  dataPage :: "int option"

type_synonym server = "request list \<Rightarrow> request \<Rightarrow> response option"

text \<open>A template literal renders a missing property as \<open>undefined\<close>.\<close>

definition template :: "jsstring option \<Rightarrow> jsstring" where
  "template v = (case v of None \<Rightarrow> js ''undefined'' | Some s \<Rightarrow> s)"

text \<open>\<open>x || d\<close> on a list, a number and the search parameter.\<close>

definition orEmpty :: "'a list option \<Rightarrow> 'a list" where
  "orEmpty v = (case v of None \<Rightarrow> [] | Some xs \<Rightarrow> xs)"

definition orNum :: "int option \<Rightarrow> int \<Rightarrow> int" where
  "orNum v d = (case v of None \<Rightarrow> d | Some n \<Rightarrow> if n = 0 then d else n)"

definition orUndefined :: "jsstring \<Rightarrow> jsstring option" where
  "orUndefined s = (if s = [] then None else Some s)"

definition itemsPerPage :: int where
  "itemsPerPage = 10"

section \<open>Hospital screen: form state and validation\<close>

type_synonym formdata = "string \<rightharpoonup> jsstring"
type_synonym validation = "string \<rightharpoonup> string"

record hstate =
  hospitals :: "hospital list"
  isModalOpen :: bool
  searchTerm :: jsstring
  editingHospital :: "hospital option"
  currentPage :: int
  isLoading :: bool
  error :: "string option"
  totalCount :: int
  validation :: validation
  formData :: formdata

text \<open>\<open>today\<close> is the value of \<open>getTodayDate()\<close> at the current render.\<close>

definition initialFormData :: "jsstring \<Rightarrow> formdata" where
  "initialFormData today = map_of
     [(''registration_id'', []),
      (''registration_date'', today),
      (''clinic_name'', []),
      (''speciality'', []),
      (''logo'', []),
      (''email'', []),
      (''address'', []),
      (''address2'', []),
      (''pin_code'', []),
      (''country'', []),
      (''state'', []),
      (''city'', []),
      (''phone_number'', []),
      (''mobile_number'', []),
      (''working_hours_from'', []),
      (''working_hours_to'', [])]"

definition initialState :: "jsstring \<Rightarrow> hstate" where
  "initialState today =
     \<lparr>hospitals = [], isModalOpen = False, searchTerm = [], editingHospital = None,
      currentPage = 1, isLoading = False, error = None, totalCount = 0,
      validation = Map.empty, formData = initialFormData today\<rparr>"

definition handleInputChange :: "string \<Rightarrow> jsstring \<Rightarrow> hstate \<Rightarrow> hstate" where
  "handleInputChange name value s =
     (let s1 = s\<lparr>formData := (formData s)(name \<mapsto> value)\<rparr>
      in if truthy (validation s name)
         then s1\<lparr>validation := (validation s)(name \<mapsto> [])\<rparr>
         else s1)"

text \<open>
  \<open>fromTime >= toTime\<close> on two \<open>Date\<close> objects compares their time values; the
  comparison is false when either is \<open>NaN\<close> (an invalid date). \<open>newDate\<close> is the
  \<open>Date\<close> constructor of the runtime on strings: the time value, or \<open>None\<close> for
  \<open>NaN\<close>.
\<close>

definition dateGe :: "int option \<Rightarrow> int option \<Rightarrow> bool" where
  "dateGe a b = (case (a, b) of (Some x, Some y) \<Rightarrow> x \<ge> y | _ \<Rightarrow> False)"

definition onDay :: "jsstring \<Rightarrow> jsstring" where
  "onDay t = js ''1970-01-01T'' @ t"

text \<open>The statement \<open>if (c) errors.k = message;\<close>.\<close>

definition assignIf :: "bool \<Rightarrow> string \<Rightarrow> string \<Rightarrow> validation \<Rightarrow> validation" where
  "assignIf c k message errors = (if c then errors(k \<mapsto> message) else errors)"

definition validateForm :: "(jsstring \<Rightarrow> int option) \<Rightarrow> formdata \<Rightarrow> validation" where
  "validateForm newDate fd =
     (let errors = Map.empty;
          errors = assignIf (\<not> truthy (fd ''clinic_name''))
                     ''clinic_name'' ''Clinic Name is required'' errors;
          errors = assignIf (\<not> truthy (fd ''address''))
                     ''address'' ''Address is required'' errors;
          errors = assignIf (\<not> truthy (fd ''pin_code''))
                     ''pin_code'' ''Pin Code is required'' errors;
          errors = assignIf (truthy (fd ''pin_code'')
                             \<and> \<not> test pinCodeRe (the (fd ''pin_code'')))
                     ''pin_code'' ''Pin Code must be a 6-digit number'' errors;
          errors = assignIf (truthy (fd ''phone_number'')
                             \<and> \<not> test phoneRe (stripSeparators (the (fd ''phone_number''))))
                     ''phone_number'' ''Please enter a valid phone number'' errors;
          errors = assignIf (truthy (fd ''mobile_number'')
                             \<and> \<not> test phoneRe (stripSeparators (the (fd ''mobile_number''))))
                     ''mobile_number'' ''Please enter a valid mobile number'' errors;
          errors = assignIf (truthy (fd ''email'')
                             \<and> \<not> test emailRe (the (fd ''email'')))
                     ''email'' ''Please enter a valid email address'' errors;
          errors = assignIf (truthy (fd ''working_hours_from'')
                             \<and> truthy (fd ''working_hours_to'')
                             \<and> dateGe (newDate (onDay (the (fd ''working_hours_from''))))
                                       (newDate (onDay (the (fd ''working_hours_to'')))))
                     ''working_hours_to''
                     ''Working Hours To must be later than Working Hours From'' errors
      in errors)"

text \<open>
  A model of the \<open>Date\<close> constructor on the date-time strings \<open>1970-01-01THH:mm\<close>,
  the form the time pickers produce: the local clock time, \<open>tz\<close> being the offset of
  the local zone in milliseconds. Other strings are not interpreted.
\<close>

definition digit :: "jschar \<Rightarrow> int" where
  "digit c = uint c - 48"

definition isoLocalDate :: "int \<Rightarrow> jsstring \<Rightarrow> int option" where
  "isoLocalDate tz s =
     (if take 11 s = js ''1970-01-01T'' then
        (case drop 11 s of
           [h1, h2, c, m1, m2] \<Rightarrow>
             (if c = of_char CHR '':'' \<and> isDigit h1 \<and> isDigit h2 \<and> isDigit m1 \<and> isDigit m2
                 \<and> digit h1 * 10 + digit h2 < 24 \<and> digit m1 * 10 + digit m2 < 60
              then Some (tz + ((digit h1 * 10 + digit h2) * 60 + (digit m1 * 10 + digit m2)) * 60000)
              else None)
         | _ \<Rightarrow> None)
      else None)"

text \<open>
  \<open>time.toTimeString().split(' ')[0].substring(0, 5)\<close> for a date whose local time
  is \<open>h\<close> hours and \<open>m\<close> minutes: \<open>HH:MM\<close>.
\<close>

definition digitChar :: "nat \<Rightarrow> jschar" where
  "digitChar d = of_nat (48 + d)"

definition renderTime :: "nat \<Rightarrow> nat \<Rightarrow> jsstring" where
  "renderTime h m =
     [digitChar (h div 10), digitChar (h mod 10), of_char CHR '':'',
      digitChar (m div 10), digitChar (m mod 10)]"

text \<open>
  The pickers. \<open>selected\<close> is the list \<open>selectedDates\<close>, each date already rendered
  as the handler renders it (\<open>HH:MM\<close> for a time, \<open>YYYY-MM-DD\<close> for a date).
\<close>

definition onChangeRegistrationDate :: "jsstring list \<Rightarrow> hstate \<Rightarrow> hstate" where
  "onChangeRegistrationDate selected s =
     (case selected of
        [] \<Rightarrow> s
      | date # _ \<Rightarrow> s\<lparr>formData := (formData s)(''registration_date'' \<mapsto> date)\<rparr>)"

definition onChangeWorkingHoursFrom :: "jsstring list \<Rightarrow> hstate \<Rightarrow> hstate" where
  "onChangeWorkingHoursFrom selected s =
     (case selected of
        [] \<Rightarrow> s
      | timeString # _ \<Rightarrow>
          (let s1 = s\<lparr>formData := (formData s)(''working_hours_from'' \<mapsto> timeString)\<rparr>
           in if truthy (validation s ''working_hours_to'')
              then s1\<lparr>validation := (validation s)(''working_hours_to'' \<mapsto> [])\<rparr>
              else s1))"

definition onChangeWorkingHoursTo ::
  "(jsstring \<Rightarrow> int option) \<Rightarrow> jsstring list \<Rightarrow> hstate \<Rightarrow> hstate" where
  "onChangeWorkingHoursTo newDate selected s =
     (case selected of
        [] \<Rightarrow> s
      | timeString # _ \<Rightarrow>
          (let s1 = s\<lparr>formData := (formData s)(''working_hours_to'' \<mapsto> timeString)\<rparr>
           in if truthy (formData s ''working_hours_from'') \<and> timeString \<noteq> []
              then (if dateGe (newDate (onDay (the (formData s ''working_hours_from''))))
                              (newDate (onDay timeString))
                    then s1\<lparr>validation := (validation s)(''working_hours_to'' \<mapsto>
                           ''Working Hours To must be later than Working Hours From'')\<rparr>
                    else s1\<lparr>validation := (validation s)(''working_hours_to'' \<mapsto> [])\<rparr>)
              else s1))"

section \<open>Hospital screen: modal, submit and list fetch\<close>

definition handleCloseModal :: "jsstring \<Rightarrow> hstate \<Rightarrow> hstate" where
  "handleCloseModal today s =
     s\<lparr>isModalOpen := False, editingHospital := None,
       formData := initialFormData today, validation := Map.empty\<rparr>"

text \<open>The "Create Hospital" button: \<open>onClick={() => setIsModalOpen(true)}\<close>.\<close>

definition openCreate :: "hstate \<Rightarrow> hstate" where
  "openCreate s = s\<lparr>isModalOpen := True\<rparr>"

definition editKeys :: "string list" where
  "editKeys =
     [''registration_date'', ''clinic_name'', ''speciality'', ''logo'', ''email'',
      ''address'', ''address2'', ''pin_code'', ''country'', ''state'', ''city'',
      ''phone_number'', ''mobile_number'', ''working_hours_from'', ''working_hours_to'']"

definition handleEdit :: "hospital \<Rightarrow> hstate \<Rightarrow> hstate" where
  "handleEdit hospital s =
     s\<lparr>editingHospital := Some hospital,
       formData := (\<lambda>k. if k = ''registration_id'' then Some []
                         else if k \<in> set editKeys
                         then Some (case hospital k of None \<Rightarrow> [] | Some v \<Rightarrow> v)
                         else None),
       validation := Map.empty,
       isModalOpen := True\<rparr>"

definition payloadKeys :: "string list" where
  "payloadKeys =
     [''clinic_name'', ''speciality'', ''logo'', ''email'',
      ''address'', ''address2'', ''pin_code'', ''country'', ''state'', ''city'',
      ''phone_number'', ''mobile_number'', ''working_hours_from'', ''working_hours_to'']"

definition hospitalData :: "formdata \<Rightarrow> jsobject" where
  "hospitalData fd =
     (\<lambda>k. if k = ''registration_date'' then Some (DateOf (fd ''registration_date''))
           else if k \<in> set payloadKeys then map_option Str (fd k)
           else None)"

text \<open>
  \<open>fetchHospitals\<close> up to its \<open>await\<close>, and from the arrival of the answer on.
  \<open>term\<close> is the \<open>searchTerm\<close> of the render whose closure makes the call.
\<close>

definition listParams :: "int \<Rightarrow> jsstring \<Rightarrow> jsobject" where
  "listParams page term =
     (\<lambda>k. if k = ''page'' then Some (Num page)
           else if k = ''limit'' then Some (Num itemsPerPage)
           else if k = ''search'' then map_option Str (orUndefined (trim term))
           else None)"

definition fetchStart :: "int \<Rightarrow> jsstring \<Rightarrow> hstate \<Rightarrow> hstate \<times> request" where
  "fetchStart page term s =
     (s\<lparr>isLoading := True, error := None\<rparr>, GET (js ''/hospital'') (listParams page term))"

definition fetchDone :: "int \<Rightarrow> response option \<Rightarrow> hstate \<Rightarrow> hstate" where
  "fetchDone page answer s =
     (case answer of
        Some r \<Rightarrow>
          s\<lparr>hospitals := orEmpty (dataHospitals r),
            totalCount := orNum (dataTotalCount r) 0,
            currentPage := orNum (dataPage r) page,
            isLoading := False\<rparr>
      | None \<Rightarrow>
          s\<lparr>error := Some ''Error loading hospital data. Please try again later.'',
            isLoading := False\<rparr>)"

definition fetchHospitals ::
  "server \<Rightarrow> int \<Rightarrow> jsstring \<Rightarrow> hstate \<times> request list \<Rightarrow> hstate \<times> request list" where
  "fetchHospitals srv page term w =
     (let (s1, rq) = fetchStart page term (fst w)
      in (fetchDone page (srv (snd w) rq) s1, snd w @ [rq]))"

text \<open>
  \<open>handleSubmit\<close> run to completion against the API. The pair is the component state
  and the requests issued so far.
\<close>

definition saveRequest :: "hstate \<Rightarrow> request" where
  "saveRequest s =
     (case editingHospital s of
        Some h \<Rightarrow> PUT (js ''/hospital/'' @ template (h ''id'')) (hospitalData (formData s))
      | None \<Rightarrow> POST (js ''/hospital'') (hospitalData (formData s)))"

definition handleSubmit ::
  "server \<Rightarrow> (jsstring \<Rightarrow> int option) \<Rightarrow> jsstring \<Rightarrow> hstate \<times> request list
     \<Rightarrow> hstate \<times> request list" where
  "handleSubmit srv newDate today w =
     (let s = fst w; log = snd w;
          errors = validateForm newDate (formData s);
          s1 = s\<lparr>validation := errors\<rparr>
      in if errors \<noteq> Map.empty then (s1, log)
         else
           (let s2 = s1\<lparr>isLoading := True, error := None\<rparr>;
                rq = saveRequest s
            in case srv log rq of
                 None \<Rightarrow>
                   (s2\<lparr>error := Some ''Error saving hospital data. Please try again.'',
                       isLoading := False\<rparr>, log @ [rq])
               | Some r \<Rightarrow>
                   (let w3 = (if status r = 200 \<or> status r = 201
                              then fetchHospitals srv (currentPage s) (searchTerm s)
                                     (s2, log @ [rq])
                              else (s2, log @ [rq]))
                    in ((handleCloseModal today (fst w3))\<lparr>isLoading := False\<rparr>, snd w3))))"

text \<open>
  \<open>handleDelete\<close>; \<open>confirmed\<close> is the answer to \<open>window.confirm\<close> and
  \<open>ident\<close> the parameter \<open>id\<close>.
\<close>

definition handleDelete ::
  "server \<Rightarrow> bool \<Rightarrow> jsstring \<Rightarrow> hstate \<times> request list \<Rightarrow> hstate \<times> request list" where
  "handleDelete srv confirmed ident w =
     (if \<not> confirmed then w
      else
        (let s = fst w; log = snd w;
             s1 = s\<lparr>isLoading := True, error := None\<rparr>;
             rq = DELETE (js ''/hospital/'' @ ident)
         in case srv log rq of
              None \<Rightarrow>
                (s1\<lparr>error := Some ''Error deleting hospital. Please try again.'',
                    isLoading := False\<rparr>, log @ [rq])
            | Some r \<Rightarrow>
                (let w2 = fetchHospitals srv (currentPage s) (searchTerm s) (s1, log @ [rq])
                 in ((fst w2)\<lparr>isLoading := False\<rparr>, snd w2))))"

section \<open>Hospital screen: debounced search and in-flight fetches\<close>

text \<open>
  The runtime around the component: the pending timeout of the debounce effect (its due
  time in milliseconds and the \<open>searchTerm\<close> its closure captured), the list fetches
  awaiting their answer (with their \<open>page\<close> argument), and every request sent.
\<close>

record hruntime =
  screen :: hstate
  timer :: "(nat \<times> jsstring) option"
  inflight :: "(int \<times> request) list"
  sent :: "request list"

text \<open>
  Mounting renders the initial state and runs the effect once. A due timeout calls
  \<open>fetchHospitals(1)\<close>. Typing calls \<open>setSearchTerm\<close>: an unchanged value causes no
  render; a changed one re-runs the effect, whose cleanup clears the old timeout.
\<close>

definition mount :: "jsstring \<Rightarrow> nat \<Rightarrow> hruntime" where
  "mount today t =
     \<lparr>screen = initialState today, timer = Some (t + 500, []), inflight = [], sent = []\<rparr>"

definition tick :: "nat \<Rightarrow> hruntime \<Rightarrow> hruntime" where
  "tick t rt =
     (case timer rt of
        None \<Rightarrow> rt
      | Some (due, term) \<Rightarrow>
          if due \<le> t
          then (let (s1, rq) = fetchStart 1 term (screen rt)
                in rt\<lparr>screen := s1, timer := None,
                      inflight := inflight rt @ [(1, rq)], sent := sent rt @ [rq]\<rparr>)
          else rt)"

definition typeSearch :: "nat \<Rightarrow> jsstring \<Rightarrow> hruntime \<Rightarrow> hruntime" where
  "typeSearch t v rt =
     (if v = searchTerm (screen rt) then rt
      else rt\<lparr>screen := (screen rt)\<lparr>searchTerm := v\<rparr>, timer := Some (t + 500, v)\<rparr>)"

text \<open>\<open>handlePageChange\<close>: the page is set and fetched with the current search term.\<close>

definition handlePageChange :: "int \<Rightarrow> hruntime \<Rightarrow> hruntime" where
  "handlePageChange page rt =
     (let (s1, rq) = fetchStart page (searchTerm (screen rt)) ((screen rt)\<lparr>currentPage := page\<rparr>)
      in rt\<lparr>screen := s1, inflight := inflight rt @ [(page, rq)], sent := sent rt @ [rq]\<rparr>)"

definition arrive :: "server \<Rightarrow> nat \<Rightarrow> hruntime \<Rightarrow> hruntime" where
  "arrive srv i rt =
     (if i < length (inflight rt)
      then (let (page, rq) = inflight rt ! i
            in rt\<lparr>screen := fetchDone page (srv (sent rt) rq) (screen rt),
                  inflight := take i (inflight rt) @ drop (Suc i) (inflight rt)\<rparr>)
      else rt)"

text \<open>
  What happens to the mounted screen: at time \<open>t\<close> a term is typed, nothing happens, or
  a page button is clicked; the answer to the \<open>i\<close>-th fetch in flight arrives. A
  timeout due by \<open>t\<close> has fired before anything else happens at \<open>t\<close>.
\<close>

datatype event =
    Type nat jsstring
  | Tick nat
  | Arrive nat
  | Page nat int

fun step :: "server \<Rightarrow> event \<Rightarrow> hruntime \<Rightarrow> hruntime" where
  "step srv (Type t v) rt = typeSearch t v (tick t rt)"
| "step srv (Tick t) rt = tick t rt"
| "step srv (Arrive i) rt = arrive srv i rt"
| "step srv (Page t page) rt = handlePageChange page (tick t rt)"

fun run :: "server \<Rightarrow> event list \<Rightarrow> hruntime \<Rightarrow> hruntime" where
  "run srv [] rt = rt"
| "run srv (e # es) rt = run srv es (step srv e rt)"

section \<open>User screen: form state and validation\<close>

text \<open>
  The state of \<open>UserManagement\<close>. Where a name of the source is already a field of
  the hospital screen it carries the suffix \<open>_u\<close>.
\<close>

record ustate =
  users :: "uobject list"
  hospitals_u :: "hospital list"
  isModalOpen_u :: bool
  searchTerm_u :: jsstring
  selectedHospital :: jsstring
  editingUser :: "uobject option"
  currentPage_u :: int
  isLoading_u :: bool
  error_u :: "string option"
  totalCount_u :: int
  validation_u :: validation
  formData_u :: uobject

definition initialFormData_u :: uobject where
  "initialFormData_u = map_of
     [(''_id'', UStr []),
      (''title'', UStr []),
      (''first_name'', UStr []),
      (''last_name'', UStr []),
      (''hospital_id'', UStr []),
      (''hospital_details'', UObj Map.empty),
      (''gender'', UStr (js ''Male'')),
      (''email_id'', UStr []),
      (''mobile_number'', UStr []),
      (''phone_number'', UStr []),
      (''qualification'', UStr []),
      (''designation'', UStr []),
      (''is_doctor'', UBool False),
      (''color'', UStr (js ''#000000'')),
      (''staff_status'', UStr (js ''Active'')),
      (''set_availability'', UBool False),
      (''user_role'', UStr []),
      (''is_admin'', UBool False),
      (''photo'', UStr [])]"

definition initialState_u :: ustate where
  "initialState_u =
     \<lparr>users = [], hospitals_u = [], isModalOpen_u = False, searchTerm_u = [],
      selectedHospital = [], editingUser = None, currentPage_u = 1, isLoading_u = False,
      error_u = None, totalCount_u = 0, validation_u = Map.empty,
      formData_u = initialFormData_u\<rparr>"

definition handleInputChange_u :: "string \<Rightarrow> jsstring \<Rightarrow> ustate \<Rightarrow> ustate" where
  "handleInputChange_u name value s =
     (let s1 = s\<lparr>formData_u := (formData_u s)(name \<mapsto> UStr value)\<rparr>
      in if truthy (validation_u s name)
         then s1\<lparr>validation_u := (validation_u s)(name \<mapsto> [])\<rparr>
         else s1)"

definition handleSelectChange :: "string \<Rightarrow> jsstring \<Rightarrow> ustate \<Rightarrow> ustate" where
  "handleSelectChange name value s = s\<lparr>formData_u := (formData_u s)(name \<mapsto> UStr value)\<rparr>"

definition handleCheckboxChange :: "string \<Rightarrow> bool \<Rightarrow> ustate \<Rightarrow> ustate" where
  "handleCheckboxChange name checked s =
     s\<lparr>formData_u := (formData_u s)(name \<mapsto> UBool checked)\<rparr>"

text \<open>
  Truthiness and \<open>ToString\<close> of a form value. Calling \<open>.replace\<close> on a truthy value
  that is not a string raises a \<open>TypeError\<close>.
\<close>

datatype js_error = TypeError

definition truthy_u :: "uval option \<Rightarrow> bool" where
  "truthy_u v =
     (case v of
        None \<Rightarrow> False
      | Some (UStr s) \<Rightarrow> s \<noteq> []
      | Some (UBool b) \<Rightarrow> b
      | Some (UObj h) \<Rightarrow> True)"

definition toString :: "uval option \<Rightarrow> jsstring" where
  "toString v =
     (case v of
        None \<Rightarrow> js ''undefined''
      | Some (UStr s) \<Rightarrow> s
      | Some (UBool b) \<Rightarrow> (if b then js ''true'' else js ''false'')
      | Some (UObj h) \<Rightarrow> js ''[object Object]'')"

definition phoneInvalid :: "uval option \<Rightarrow> js_error + bool" where
  "phoneInvalid v =
     (if truthy_u v
      then (case v of
              Some (UStr s) \<Rightarrow> Inr (\<not> test phoneRe (stripSeparators s))
            | _ \<Rightarrow> Inl TypeError)
      else Inr False)"

definition validateForm_u :: "uobject \<Rightarrow> js_error + validation" where
  "validateForm_u fd =
     (let errors = Map.empty;
          errors = assignIf (\<not> truthy_u (fd ''first_name''))
                     ''first_name'' ''First Name is required'' errors;
          errors = assignIf (\<not> truthy_u (fd ''last_name''))
                     ''last_name'' ''Last Name is required'' errors;
          errors = assignIf (\<not> truthy_u (fd ''hospital_id''))
                     ''hospital_id'' ''Hospital is required'' errors;
          errors = assignIf (\<not> truthy_u (fd ''email_id''))
                     ''email_id'' ''Email is required'' errors;
          errors = assignIf (truthy_u (fd ''email_id'')
                             \<and> \<not> test emailRe (toString (fd ''email_id'')))
                     ''email_id'' ''Please enter a valid email address'' errors
      in case phoneInvalid (fd ''phone_number'') of
           Inl e \<Rightarrow> Inl e
         | Inr badPhone \<Rightarrow>
             (let errors = assignIf badPhone
                             ''phone_number'' ''Please enter a valid phone number'' errors
              in case phoneInvalid (fd ''mobile_number'') of
                   Inl e \<Rightarrow> Inl e
                 | Inr badMobile \<Rightarrow>
                     Inr (assignIf badMobile
                            ''mobile_number'' ''Please enter a valid mobile number'' errors)))"

section \<open>User screen: modal, submit and list fetch\<close>

definition handleCloseModal_u :: "ustate \<Rightarrow> ustate" where
  "handleCloseModal_u s =
     s\<lparr>isModalOpen_u := False, editingUser := None,
       formData_u := initialFormData_u, validation_u := Map.empty\<rparr>"

definition openCreate_u :: "ustate \<Rightarrow> ustate" where
  "openCreate_u s = s\<lparr>isModalOpen_u := True\<rparr>"

definition userFormKeys :: "string list" where
  "userFormKeys =
     [''_id'', ''title'', ''first_name'', ''last_name'', ''hospital_id'', ''hospital_details'',
      ''gender'', ''email_id'', ''mobile_number'', ''phone_number'', ''qualification'',
      ''designation'', ''is_doctor'', ''color'', ''staff_status'', ''set_availability'',
      ''user_role'', ''is_admin'', ''photo'']"

definition handleEdit_u :: "uobject \<Rightarrow> ustate \<Rightarrow> ustate" where
  "handleEdit_u user s =
     s\<lparr>editingUser := Some user,
       formData_u := (\<lambda>k. if k \<in> set userFormKeys then user k else None),
       validation_u := Map.empty,
       isModalOpen_u := True\<rparr>"

definition listParams_u :: "int \<Rightarrow> jsstring \<Rightarrow> jsstring \<Rightarrow> jsobject" where
  "listParams_u page term hosp =
     (\<lambda>k. if k = ''page'' then Some (Num page)
           else if k = ''limit'' then Some (Num itemsPerPage)
           else if k = ''search'' then map_option Str (orUndefined (trim term))
           else if k = ''hospital_id'' then map_option Str (orUndefined hosp)
           else None)"

definition fetchStart_u ::
  "int \<Rightarrow> jsstring \<Rightarrow> jsstring \<Rightarrow> ustate \<Rightarrow> ustate \<times> request" where
  "fetchStart_u page term hosp s =
     (s\<lparr>isLoading_u := True, error_u := None\<rparr>,
      GET (js ''/hospitaluser'') (listParams_u page term hosp))"

definition fetchDone_u :: "int \<Rightarrow> response option \<Rightarrow> ustate \<Rightarrow> ustate" where
  "fetchDone_u page answer s =
     (case answer of
        Some r \<Rightarrow>
          s\<lparr>users := orEmpty (dataUsers r),
            totalCount_u := orNum (dataTotalCount r) 0,
            currentPage_u := orNum (dataPage r) page,
            isLoading_u := False\<rparr>
      | None \<Rightarrow>
          s\<lparr>error_u := Some ''Error loading user data. Please try again later.'',
            isLoading_u := False\<rparr>)"

definition fetchUsers ::
  "server \<Rightarrow> int \<Rightarrow> jsstring \<Rightarrow> jsstring \<Rightarrow> ustate \<times> request list
     \<Rightarrow> ustate \<times> request list" where
  "fetchUsers srv page term hosp w =
     (let (s1, rq) = fetchStart_u page term hosp (fst w)
      in (fetchDone_u page (srv (snd w) rq) s1, snd w @ [rq]))"

definition saveRequest_u :: "ustate \<Rightarrow> request" where
  "saveRequest_u s =
     (case editingUser s of
        Some u \<Rightarrow> PUT (js ''/hospitaluser/'' @ toString (u ''_id''))
                    (map_option asJs \<circ> formData_u s)
      | None \<Rightarrow> POST (js ''/hospitaluser'') (map_option asJs \<circ> formData_u s))"

text \<open>
  \<open>handleSubmit\<close> of the user screen. An exception of \<open>validateForm\<close> leaves the
  handler before any state is set.
\<close>

definition handleSubmit_u ::
  "server \<Rightarrow> ustate \<times> request list \<Rightarrow> js_error + ustate \<times> request list" where
  "handleSubmit_u srv w =
     (let s = fst w; log = snd w
      in case validateForm_u (formData_u s) of
           Inl e \<Rightarrow> Inl e
         | Inr errors \<Rightarrow>
             (let s1 = s\<lparr>validation_u := errors\<rparr>
              in if errors \<noteq> Map.empty then Inr (s1, log)
                 else
                   (let s2 = s1\<lparr>isLoading_u := True, error_u := None\<rparr>;
                        rq = saveRequest_u s
                    in case srv log rq of
                         None \<Rightarrow>
                           Inr (s2\<lparr>error_u := Some ''Error saving user data. Please try again.'',
                                   isLoading_u := False\<rparr>, log @ [rq])
                       | Some r \<Rightarrow>
                           (let w3 = (if status r = 200 \<or> status r = 201
                                      then fetchUsers srv (currentPage_u s) (searchTerm_u s)
                                             (selectedHospital s) (s2, log @ [rq])
                                      else (s2, log @ [rq]))
                            in Inr ((handleCloseModal_u (fst w3))\<lparr>isLoading_u := False\<rparr>,
                                    snd w3)))))"

definition handleDelete_u ::
  "server \<Rightarrow> bool \<Rightarrow> jsstring \<Rightarrow> ustate \<times> request list \<Rightarrow> ustate \<times> request list" where
  "handleDelete_u srv confirmed ident w =
     (if \<not> confirmed then w
      else
        (let s = fst w; log = snd w;
             s1 = s\<lparr>isLoading_u := True, error_u := None\<rparr>;
             rq = DELETE (js ''/hospitaluser/'' @ ident)
         in case srv log rq of
              None \<Rightarrow>
                (s1\<lparr>error_u := Some ''Error deleting user. Please try again.'',
                    isLoading_u := False\<rparr>, log @ [rq])
            | Some r \<Rightarrow>
                (let w2 = fetchUsers srv (currentPage_u s) (searchTerm_u s) (selectedHospital s)
                            (s1, log @ [rq])
                 in ((fst w2)\<lparr>isLoading_u := False\<rparr>, snd w2))))"

section \<open>User screen: debounced search and in-flight fetches\<close>

text \<open>
  As for the hospital screen; the effect depends on \<open>searchTerm\<close> and
  \<open>selectedHospital\<close>, and its closure captures both. Mounting also requests the
  hospitals of the selector (\<open>GET /hospital\<close> with \<open>limit: 100\<close>).
\<close>

record uruntime =
  screen_u :: ustate
  timer_u :: "(nat \<times> jsstring \<times> jsstring) option"
  inflight_u :: "(int \<times> request) list"
  optionsPending :: "request option"
  sent_u :: "request list"

definition optionsRequest :: request where
  "optionsRequest = GET (js ''/hospital'') (\<lambda>k. if k = ''limit'' then Some (Num 100) else None)"

definition mount_u :: "nat \<Rightarrow> uruntime" where
  "mount_u t =
     \<lparr>screen_u = initialState_u, timer_u = Some (t + 500, [], []), inflight_u = [],
      optionsPending = Some optionsRequest, sent_u = [optionsRequest]\<rparr>"

definition tick_u :: "nat \<Rightarrow> uruntime \<Rightarrow> uruntime" where
  "tick_u t rt =
     (case timer_u rt of
        None \<Rightarrow> rt
      | Some (due, term, hosp) \<Rightarrow>
          if due \<le> t
          then (let (s1, rq) = fetchStart_u 1 term hosp (screen_u rt)
                in rt\<lparr>screen_u := s1, timer_u := None,
                      inflight_u := inflight_u rt @ [(1, rq)], sent_u := sent_u rt @ [rq]\<rparr>)
          else rt)"

definition typeSearch_u :: "nat \<Rightarrow> jsstring \<Rightarrow> uruntime \<Rightarrow> uruntime" where
  "typeSearch_u t v rt =
     (if v = searchTerm_u (screen_u rt) then rt
      else rt\<lparr>screen_u := (screen_u rt)\<lparr>searchTerm_u := v\<rparr>,
              timer_u := Some (t + 500, v, selectedHospital (screen_u rt))\<rparr>)"

definition selectHospital :: "nat \<Rightarrow> jsstring \<Rightarrow> uruntime \<Rightarrow> uruntime" where
  "selectHospital t h rt =
     (if h = selectedHospital (screen_u rt) then rt
      else rt\<lparr>screen_u := (screen_u rt)\<lparr>selectedHospital := h\<rparr>,
              timer_u := Some (t + 500, searchTerm_u (screen_u rt), h)\<rparr>)"

definition handlePageChange_u :: "int \<Rightarrow> uruntime \<Rightarrow> uruntime" where
  "handlePageChange_u page rt =
     (let (s1, rq) = fetchStart_u page (searchTerm_u (screen_u rt)) (selectedHospital (screen_u rt))
                       ((screen_u rt)\<lparr>currentPage_u := page\<rparr>)
      in rt\<lparr>screen_u := s1, inflight_u := inflight_u rt @ [(page, rq)],
            sent_u := sent_u rt @ [rq]\<rparr>)"

definition arrive_u :: "server \<Rightarrow> nat \<Rightarrow> uruntime \<Rightarrow> uruntime" where
  "arrive_u srv i rt =
     (if i < length (inflight_u rt)
      then (let (page, rq) = inflight_u rt ! i
            in rt\<lparr>screen_u := fetchDone_u page (srv (sent_u rt) rq) (screen_u rt),
                  inflight_u := take i (inflight_u rt) @ drop (Suc i) (inflight_u rt)\<rparr>)
      else rt)"

definition arriveOptions :: "server \<Rightarrow> uruntime \<Rightarrow> uruntime" where
  "arriveOptions srv rt =
     (case optionsPending rt of
        None \<Rightarrow> rt
      | Some rq \<Rightarrow>
          (case srv (sent_u rt) rq of
             Some r \<Rightarrow>
               rt\<lparr>screen_u := (screen_u rt)\<lparr>hospitals_u := orEmpty (dataHospitals r)\<rparr>,
                  optionsPending := None\<rparr>
           | None \<Rightarrow>
               rt\<lparr>screen_u := (screen_u rt)
                     \<lparr>error_u := Some ''Error loading hospitals. Please try again later.''\<rparr>,
                  optionsPending := None\<rparr>))"

datatype event_u =
    Type_u nat jsstring
  | Select_u nat jsstring
  | Tick_u nat
  | Arrive_u nat
  | ArriveOptions
  | Page_u nat int

fun step_u :: "server \<Rightarrow> event_u \<Rightarrow> uruntime \<Rightarrow> uruntime" where
  "step_u srv (Type_u t v) rt = typeSearch_u t v (tick_u t rt)"
| "step_u srv (Select_u t h) rt = selectHospital t h (tick_u t rt)"
| "step_u srv (Tick_u t) rt = tick_u t rt"
| "step_u srv (Arrive_u i) rt = arrive_u srv i rt"
| "step_u srv ArriveOptions rt = arriveOptions srv rt"
| "step_u srv (Page_u t page) rt = handlePageChange_u page (tick_u t rt)"

fun run_u :: "server \<Rightarrow> event_u list \<Rightarrow> uruntime \<Rightarrow> uruntime" where
  "run_u srv [] rt = rt"
| "run_u srv (e # es) rt = run_u srv es (step_u srv e rt)"

section \<open>Sample data\<close>

text \<open>
  A hospital draft with the three starred fields filled in and nothing else, a
  complete user draft, and a stored hospital.
\<close>

definition sampleDraft :: formdata where
  "sampleDraft = (initialFormData (js ''2024-05-17''))
     (''clinic_name'' \<mapsto> js ''City Clinic'',
      ''address'' \<mapsto> js ''12 Lake Road'',
      ''pin_code'' \<mapsto> js ''560001'')"

definition sampleDraft_u :: uobject where
  "sampleDraft_u = initialFormData_u
     (''first_name'' \<mapsto> UStr (js ''Asha''),
      ''last_name'' \<mapsto> UStr (js ''Rao''),
      ''hospital_id'' \<mapsto> UStr (js ''h1''),
      ''email_id'' \<mapsto> UStr (js ''asha@clinic.in''))"

definition sampleHospital :: hospital where
  "sampleHospital = map_of
     [(''id'', js ''h1''),
      (''registration_id'', js ''REG-7''),
      (''clinic_name'', js ''City Clinic''),
      (''address'', js ''12 Lake Road''),
      (''pin_code'', js ''560001'')]"

text \<open>
  A draft whose working hours end before they start, the modal open on it; an API
  that is unreachable, and one that accepts every request and lists the stored
  hospital.
\<close>

definition lateDraft :: formdata where
  "lateDraft = sampleDraft
     (''working_hours_from'' \<mapsto> js ''09:00'', ''working_hours_to'' \<mapsto> js ''08:00'')"

definition editingLate :: hstate where
  "editingLate = (initialState (js ''2024-05-17''))\<lparr>isModalOpen := True, formData := lateDraft\<rparr>"

text \<open>The create form open on the sample drafts.\<close>

definition creating :: hstate where
  "creating = (initialState (js ''2024-05-17''))\<lparr>isModalOpen := True, formData := sampleDraft\<rparr>"

definition creating_u :: ustate where
  "creating_u = initialState_u\<lparr>isModalOpen_u := True, formData_u := sampleDraft_u\<rparr>"

definition offline :: server where
  "offline log rq = None"

definition accepting :: server where
  "accepting log rq =
     Some \<lparr>status = 200, dataHospitals = Some [sampleHospital], dataUsers = Some [sampleDraft_u],
           dataTotalCount = Some 1, dataPage = Some 1\<rparr>"

text \<open>
  An API whose hospital list answers a search with one hospital named after the search
  term, and a session on it: the list loads, then \<open>a\<close> and \<open>ab\<close> are typed 600 ms
  apart, both fetches go out, and the answer to \<open>ab\<close> arrives before the answer to
  \<open>a\<close>.
\<close>

definition named :: "jsstring \<Rightarrow> hospital" where
  "named n = [''clinic_name'' \<mapsto> n]"

definition searched :: "jsobject \<Rightarrow> jsstring" where
  "searched params = (case params ''search'' of Some (Str t) \<Rightarrow> t | _ \<Rightarrow> [])"

definition directory :: server where
  "directory log rq =
     (case rq of
        GET url params \<Rightarrow>
          Some \<lparr>status = 200, dataHospitals = Some [named (searched params)], dataUsers = None,
                dataTotalCount = Some 1, dataPage = Some 1\<rparr>
      | _ \<Rightarrow> None)"

definition overtaken :: "event list" where
  "overtaken =
     [Tick 500, Arrive 0, Type 1000 (js ''a''), Type 1600 (js ''ab''), Tick 2100,
      Arrive 1, Arrive 0]"

section \<open>The validation rules as the specification words them\<close>

text \<open>
  Exactly 6 digits; 10 to 12 digits; the shape \<open>local@domain.tld\<close> with non-empty
  parts free of whitespace and \<open>@\<close>.
\<close>

definition sixDigits :: "jsstring \<Rightarrow> bool" where
  "sixDigits s = (length s = 6 \<and> list_all isDigit s)"

definition tenToTwelveDigits :: "jsstring \<Rightarrow> bool" where
  "tenToTwelveDigits s = (10 \<le> length s \<and> length s \<le> 12 \<and> list_all isDigit s)"

definition emailShape :: "jsstring \<Rightarrow> bool" where
  "emailShape s =
     (\<exists>local domain tld.
        s = local @ [of_char CHR ''@''] @ domain @ [of_char CHR ''.''] @ tld
        \<and> local \<noteq> [] \<and> domain \<noteq> [] \<and> tld \<noteq> []
        \<and> list_all notSpaceAt local \<and> list_all notSpaceAt domain \<and> list_all notSpaceAt tld)"

text \<open>
  The fields of a hospital draft that are in error: a required field (clinic name,
  address, pin code) that is missing, a present field of the wrong format, and the
  upper working-hours bound when both bounds are present and the lower one is not
  earlier.
\<close>

definition expectedErrors :: "(jsstring \<Rightarrow> int option) \<Rightarrow> formdata \<Rightarrow> string \<Rightarrow> bool" where
  "expectedErrors newDate fd k =
     ((k \<in> {''clinic_name'', ''address'', ''pin_code''} \<and> \<not> truthy (fd k))
      \<or> (k = ''pin_code'' \<and> truthy (fd k) \<and> \<not> sixDigits (the (fd k)))
      \<or> (k \<in> {''phone_number'', ''mobile_number''} \<and> truthy (fd k)
           \<and> \<not> tenToTwelveDigits (stripSeparators (the (fd k))))
      \<or> (k = ''email'' \<and> truthy (fd k) \<and> \<not> emailShape (the (fd k)))
      \<or> (k = ''working_hours_to''
           \<and> truthy (fd ''working_hours_from'') \<and> truthy (fd ''working_hours_to'')
           \<and> dateGe (newDate (onDay (the (fd ''working_hours_from''))))
                     (newDate (onDay (the (fd ''working_hours_to''))))))"

text \<open>
  The fields of a user draft that are in error: a required field (first name, last
  name, hospital reference, email) that is missing, and a present email or phone
  number of the wrong format.
\<close>

definition isString :: "uval option \<Rightarrow> bool" where
  "isString v = (case v of Some (UStr s) \<Rightarrow> True | _ \<Rightarrow> False)"

definition expectedErrors_u :: "uobject \<Rightarrow> string \<Rightarrow> bool" where
  "expectedErrors_u fd k =
     ((k \<in> {''first_name'', ''last_name'', ''hospital_id'', ''email_id''} \<and> \<not> truthy_u (fd k))
      \<or> (k = ''email_id'' \<and> truthy_u (fd k) \<and> \<not> emailShape (toString (fd k)))
      \<or> (k \<in> {''phone_number'', ''mobile_number''} \<and> truthy_u (fd k)
           \<and> \<not> tenToTwelveDigits (stripSeparators (toString (fd k)))))"

section \<open>The regular expressions decide their languages\<close>

lemma nullable_iff: "nullable r \<longleftrightarrow> [] \<in> lang r"
  by (induction r) (auto intro: star.intros)

lemma star_Cons_iff:
  "c # s \<in> star A \<longleftrightarrow> (\<exists>u v. s = u @ v \<and> c # u \<in> A \<and> v \<in> star A)"
proof
  assume "c # s \<in> star A"
  then show "\<exists>u v. s = u @ v \<and> c # u \<in> A \<and> v \<in> star A"
  proof (induction "c # s" arbitrary: s rule: star.induct)
    case (star_App u v)
    show ?case
    proof (cases u)
      case Nil
      with star_App show ?thesis by simp
    next
      case (Cons a u')
      with star_App show ?thesis by auto
    qed
  qed
next
  assume "\<exists>u v. s = u @ v \<and> c # u \<in> A \<and> v \<in> star A"
  then obtain u v where "s = u @ v" "c # u \<in> A" "v \<in> star A" by blast
  then show "c # s \<in> star A"
    using star.star_App [of "c # u" A v] by simp
qed

lemma lang_deriv: "s \<in> lang (deriv c r) \<longleftrightarrow> c # s \<in> lang r"
proof (induction r arbitrary: s)
  case (Seq r q)
  show ?case
  proof
    assume "s \<in> lang (deriv c (Seq r q))"
    then consider (l) u v where "s = u @ v" "u \<in> lang (deriv c r)" "v \<in> lang q"
      | (r) "nullable r" "s \<in> lang (deriv c q)"
      by (auto split: if_splits)
    then show "c # s \<in> lang (Seq r q)"
    proof cases
      case l
      then have "c # u \<in> lang r" using Seq.IH(1) by simp
      with l show ?thesis by (metis (mono_tags, lifting) append_Cons lang.simps(4) mem_Collect_eq)
    next
      case r
      then have "[] \<in> lang r" "c # s \<in> lang q"
        using Seq.IH(2) by (simp_all add: nullable_iff)
      then show ?thesis by (metis (mono_tags, lifting) append_Nil lang.simps(4) mem_Collect_eq)
    qed
  next
    assume "c # s \<in> lang (Seq r q)"
    then obtain u v where uv: "c # s = u @ v" "u \<in> lang r" "v \<in> lang q" by auto
    show "s \<in> lang (deriv c (Seq r q))"
    proof (cases u)
      case Nil
      with uv have "nullable r" "s \<in> lang (deriv c q)"
        using Seq.IH(2) by (simp_all add: nullable_iff)
      then show ?thesis by simp
    next
      case (Cons a u')
      with uv have "a = c" "s = u' @ v" "u' \<in> lang (deriv c r)"
        using Seq.IH(1) by simp_all
      with uv show ?thesis by auto
    qed
  qed
next
  case (Star r)
  show ?case
    by (auto simp: star_Cons_iff Star.IH)
qed auto

lemma test_iff_lang: "test r s \<longleftrightarrow> s \<in> lang r"
  by (induction s arbitrary: r) (simp_all add: nullable_iff lang_deriv)

lemma in_lang_Seq: "s \<in> lang (Seq r q) \<longleftrightarrow> (\<exists>u v. s = u @ v \<and> u \<in> lang r \<and> v \<in> lang q)"
  by simp

lemma in_lang_Cls_Seq:
  "s \<in> lang (Seq (Cls p) q) \<longleftrightarrow> (\<exists>c v. s = c # v \<and> p c \<and> v \<in> lang q)"
proof
  assume "s \<in> lang (Seq (Cls p) q)"
  then obtain u v where "s = u @ v" "u \<in> lang (Cls p)" "v \<in> lang q"
    unfolding in_lang_Seq by blast
  then show "\<exists>c v. s = c # v \<and> p c \<and> v \<in> lang q" by auto
next
  assume "\<exists>c v. s = c # v \<and> p c \<and> v \<in> lang q"
  then obtain c v where "s = [c] @ v" "[c] \<in> lang (Cls p)" "v \<in> lang q" by auto
  then show "s \<in> lang (Seq (Cls p) q)" unfolding in_lang_Seq by blast
qed

lemma in_lang_exactly_Cls: "s \<in> lang (exactly n (Cls p)) \<longleftrightarrow> length s = n \<and> list_all p s"
proof (induction n arbitrary: s)
  case 0
  then show ?case by auto
next
  case (Suc n)
  show ?case
    unfolding exactly.simps in_lang_Cls_Seq Suc by (cases s) auto
qed

lemma in_lang_upTo_Cls: "s \<in> lang (upTo n (Cls p)) \<longleftrightarrow> length s \<le> n \<and> list_all p s"
proof (induction n arbitrary: s)
  case 0
  then show ?case by auto
next
  case (Suc n)
  have "s \<in> lang (upTo (Suc n) (Cls p)) \<longleftrightarrow> s = [] \<or> s \<in> lang (Seq (Cls p) (upTo n (Cls p)))"
    by simp
  also have "\<dots> \<longleftrightarrow> length s \<le> Suc n \<and> list_all p s"
    unfolding in_lang_Cls_Seq Suc by (cases s) auto
  finally show ?case .
qed

lemma test_fromTo_Cls:
  assumes "m \<le> n"
  shows "test (fromTo m n (Cls p)) s \<longleftrightarrow> m \<le> length s \<and> length s \<le> n \<and> list_all p s"
proof
  assume "test (fromTo m n (Cls p)) s"
  then obtain u v where "s = u @ v" "length u = m" "list_all p u" "length v \<le> n - m" "list_all p v"
    unfolding test_iff_lang fromTo_def in_lang_Seq in_lang_exactly_Cls in_lang_upTo_Cls by blast
  with assms show "m \<le> length s \<and> length s \<le> n \<and> list_all p s"
    by simp
next
  assume a: "m \<le> length s \<and> length s \<le> n \<and> list_all p s"
  have "s = take m s @ drop m s" by simp
  moreover have "length (take m s) = m" using a by simp
  moreover have "list_all p (take m s)" "list_all p (drop m s)"
    using a by (auto simp: list_all_iff dest: in_set_takeD in_set_dropD)
  moreover have "length (drop m s) \<le> n - m" using a by (simp add: diff_le_mono)
  ultimately have "s \<in> lang (fromTo m n (Cls p))"
    unfolding fromTo_def in_lang_Seq in_lang_exactly_Cls in_lang_upTo_Cls by blast
  then show "test (fromTo m n (Cls p)) s"
    by (simp add: test_iff_lang)
qed

lemma test_pinCodeRe: "test pinCodeRe s \<longleftrightarrow> length s = 6 \<and> list_all isDigit s"
  unfolding pinCodeRe_def by (subst test_fromTo_Cls) auto

lemma test_phoneRe:
  "test phoneRe s \<longleftrightarrow> 10 \<le> length s \<and> length s \<le> 12 \<and> list_all isDigit s"
  unfolding phoneRe_def by (subst test_fromTo_Cls) auto

lemma in_star_Cls: "s \<in> star (lang (Cls p)) \<longleftrightarrow> list_all p s"
proof
  show "s \<in> star (lang (Cls p)) \<Longrightarrow> list_all p s"
    by (induction rule: star.induct) auto
next
  show "list_all p s \<Longrightarrow> s \<in> star (lang (Cls p))"
  proof (induction s)
    case Nil
    show ?case by (rule star.star_Nil)
  next
    case (Cons a s)
    then have "[a] \<in> lang (Cls p)" "s \<in> star (lang (Cls p))" by auto
    then have "[a] @ s \<in> star (lang (Cls p))" by (rule star.star_App)
    then show ?case by simp
  qed
qed

lemma in_lang_Chr: "s \<in> lang (Chr a) \<longleftrightarrow> s = [of_char a]"
  by (auto simp: Chr_def)

lemma in_lang_OneOrMore_Cls: "s \<in> lang (OneOrMore (Cls p)) \<longleftrightarrow> s \<noteq> [] \<and> list_all p s"
proof -
  have "s \<in> lang (OneOrMore (Cls p)) \<longleftrightarrow> (\<exists>c v. s = c # v \<and> p c \<and> v \<in> lang (Star (Cls p)))"
    unfolding OneOrMore_def by (rule in_lang_Cls_Seq)
  also have "\<dots> \<longleftrightarrow> s \<noteq> [] \<and> list_all p s"
    by (cases s) (simp_all add: in_star_Cls del: lang.simps(3))
  finally show ?thesis .
qed

lemma test_emailRe:
  "test emailRe s \<longleftrightarrow>
     (\<exists>a b c. s = a @ [of_char CHR ''@''] @ b @ [of_char CHR ''.''] @ c
        \<and> a \<noteq> [] \<and> b \<noteq> [] \<and> c \<noteq> []
        \<and> list_all notSpaceAt a \<and> list_all notSpaceAt b \<and> list_all notSpaceAt c)"
  (is "?L \<longleftrightarrow> ?R")
proof
  assume ?L
  then obtain a v1 where 1: "s = a @ v1" "a \<noteq> []" "list_all notSpaceAt a"
      and "v1 \<in> lang (Seq (Chr CHR ''@'') (Seq (OneOrMore (Cls notSpaceAt))
                 (Seq (Chr CHR ''.'') (OneOrMore (Cls notSpaceAt)))))"
    unfolding test_iff_lang emailRe_def in_lang_Seq [of s] in_lang_OneOrMore_Cls by blast
  then obtain v2 where 2: "v1 = [of_char CHR ''@''] @ v2"
      and "v2 \<in> lang (Seq (OneOrMore (Cls notSpaceAt))
                 (Seq (Chr CHR ''.'') (OneOrMore (Cls notSpaceAt))))"
    unfolding in_lang_Seq [of v1] in_lang_Chr by blast
  then obtain b v3 where 3: "v2 = b @ v3" "b \<noteq> []" "list_all notSpaceAt b"
      and "v3 \<in> lang (Seq (Chr CHR ''.'') (OneOrMore (Cls notSpaceAt)))"
    unfolding in_lang_Seq [of v2] in_lang_OneOrMore_Cls by blast
  then obtain c where 4: "v3 = [of_char CHR ''.''] @ c" "c \<noteq> []" "list_all notSpaceAt c"
    unfolding in_lang_Seq [of v3] in_lang_Chr in_lang_OneOrMore_Cls by blast
  from 1 2 3 4 show ?R by blast
next
  assume ?R
  then obtain a b c where s: "s = a @ [of_char CHR ''@''] @ b @ [of_char CHR ''.''] @ c"
      and ne: "a \<noteq> []" "b \<noteq> []" "c \<noteq> []"
      and ok: "list_all notSpaceAt a" "list_all notSpaceAt b" "list_all notSpaceAt c"
    by blast
  have "[of_char CHR ''.''] @ c \<in> lang (Seq (Chr CHR ''.'') (OneOrMore (Cls notSpaceAt)))"
    unfolding in_lang_Seq in_lang_Chr in_lang_OneOrMore_Cls using ne ok by blast
  then have "b @ [of_char CHR ''.''] @ c
      \<in> lang (Seq (OneOrMore (Cls notSpaceAt)) (Seq (Chr CHR ''.'') (OneOrMore (Cls notSpaceAt))))"
    unfolding in_lang_Seq [of "b @ [of_char CHR ''.''] @ c"] in_lang_OneOrMore_Cls
    using ne ok by blast
  then have "[of_char CHR ''@''] @ b @ [of_char CHR ''.''] @ c
      \<in> lang (Seq (Chr CHR ''@'') (Seq (OneOrMore (Cls notSpaceAt))
                 (Seq (Chr CHR ''.'') (OneOrMore (Cls notSpaceAt)))))"
    unfolding in_lang_Seq [of "[of_char CHR ''@''] @ b @ [of_char CHR ''.''] @ c"] in_lang_Chr
    by blast
  then have "s \<in> lang emailRe"
    unfolding emailRe_def s in_lang_Seq [of "a @ [of_char CHR ''@''] @ b @ [of_char CHR ''.''] @ c"]
      in_lang_OneOrMore_Cls
    using ne ok by blast
  then show ?L by (simp add: test_iff_lang)
qed

declare test.simps [simp del]

section \<open>What validation reports, field by field\<close>

lemma assignIf_apply:
  "assignIf c k message errors k' = (if k' = k \<and> c then Some message else errors k')"
  by (simp add: assignIf_def)

lemmas vf_simps = validateForm_def Let_def assignIf_apply

lemma vf_clinic_name:
  "validateForm nd fd ''clinic_name'' =
     (if truthy (fd ''clinic_name'') then None else Some ''Clinic Name is required'')"
  by (simp add: vf_simps)

lemma vf_address:
  "validateForm nd fd ''address'' =
     (if truthy (fd ''address'') then None else Some ''Address is required'')"
  by (simp add: vf_simps)

lemma vf_pin_code:
  "validateForm nd fd ''pin_code'' =
     (if \<not> truthy (fd ''pin_code'') then Some ''Pin Code is required''
      else if \<not> test pinCodeRe (the (fd ''pin_code''))
      then Some ''Pin Code must be a 6-digit number'' else None)"
  by (simp add: vf_simps)

lemma vf_phone_number:
  "validateForm nd fd ''phone_number'' =
     (if truthy (fd ''phone_number'')
         \<and> \<not> test phoneRe (stripSeparators (the (fd ''phone_number'')))
      then Some ''Please enter a valid phone number'' else None)"
  by (simp add: vf_simps)

lemma vf_mobile_number:
  "validateForm nd fd ''mobile_number'' =
     (if truthy (fd ''mobile_number'')
         \<and> \<not> test phoneRe (stripSeparators (the (fd ''mobile_number'')))
      then Some ''Please enter a valid mobile number'' else None)"
  by (simp add: vf_simps)

lemma vf_email:
  "validateForm nd fd ''email'' =
     (if truthy (fd ''email'') \<and> \<not> test emailRe (the (fd ''email''))
      then Some ''Please enter a valid email address'' else None)"
  by (simp add: vf_simps)

lemma vf_working_hours_to:
  "validateForm nd fd ''working_hours_to'' =
     (if truthy (fd ''working_hours_from'') \<and> truthy (fd ''working_hours_to'')
         \<and> dateGe (nd (onDay (the (fd ''working_hours_from''))))
                   (nd (onDay (the (fd ''working_hours_to''))))
      then Some ''Working Hours To must be later than Working Hours From'' else None)"
  by (simp add: vf_simps)

lemma vf_other:
  assumes "k \<noteq> ''clinic_name''" "k \<noteq> ''address''" "k \<noteq> ''pin_code''"
      "k \<noteq> ''phone_number''" "k \<noteq> ''mobile_number''" "k \<noteq> ''email''"
      "k \<noteq> ''working_hours_to''"
  shows "validateForm nd fd k = None"
  by (simp add: vf_simps assms)

lemma sixDigits_iff: "sixDigits s \<longleftrightarrow> test pinCodeRe s"
  by (simp add: sixDigits_def test_pinCodeRe)

lemma tenToTwelveDigits_iff: "tenToTwelveDigits s \<longleftrightarrow> test phoneRe s"
  by (simp add: tenToTwelveDigits_def test_phoneRe)

lemma emailShape_iff: "emailShape s \<longleftrightarrow> test emailRe s"
  unfolding emailShape_def test_emailRe ..

lemma validateForm_in_error:
  "validateForm nd fd k \<noteq> None \<longleftrightarrow> expectedErrors nd fd k"
proof -
  have c1: "k = ''clinic_name'' \<Longrightarrow> ?thesis"
    by (simp add: vf_clinic_name expectedErrors_def)
  have c2: "k = ''address'' \<Longrightarrow> ?thesis"
    by (simp add: vf_address expectedErrors_def)
  have c3: "k = ''pin_code'' \<Longrightarrow> ?thesis"
    by (simp add: vf_pin_code expectedErrors_def sixDigits_iff)
  have c4: "k = ''phone_number'' \<Longrightarrow> ?thesis"
    by (simp add: vf_phone_number expectedErrors_def tenToTwelveDigits_iff)
  have c5: "k = ''mobile_number'' \<Longrightarrow> ?thesis"
    by (simp add: vf_mobile_number expectedErrors_def tenToTwelveDigits_iff)
  have c6: "k = ''email'' \<Longrightarrow> ?thesis"
    by (simp add: vf_email expectedErrors_def emailShape_iff)
  have c7: "k = ''working_hours_to'' \<Longrightarrow> ?thesis"
    by (simp add: vf_working_hours_to expectedErrors_def)
  have c8: ?thesis
    if ne: "k \<noteq> ''clinic_name''" "k \<noteq> ''address''" "k \<noteq> ''pin_code''"
      "k \<noteq> ''phone_number''" "k \<noteq> ''mobile_number''" "k \<noteq> ''email''"
      "k \<noteq> ''working_hours_to''"
  proof -
    have "validateForm nd fd k = None"
      by (rule vf_other) (rule ne)+
    moreover have "\<not> expectedErrors nd fd k"
      unfolding expectedErrors_def by (simp add: ne)
    ultimately show ?thesis by simp
  qed
  from c1 c2 c3 c4 c5 c6 c7 c8 show ?thesis by argo
qed

lemma dom_validateForm: "dom (validateForm nd fd) = {k. expectedErrors nd fd k}"
  by (auto simp: dom_def validateForm_in_error [symmetric])

lemma phoneInvalid_string:
  assumes "truthy_u v \<longrightarrow> isString v"
  shows "phoneInvalid v = Inr (truthy_u v \<and> \<not> test phoneRe (stripSeparators (toString v)))"
  using assms
  by (auto simp: phoneInvalid_def truthy_u_def isString_def toString_def
      split: option.splits uval.splits)

lemma phoneInvalid_TypeError:
  assumes "truthy_u v" and "\<not> isString v"
  shows "phoneInvalid v = Inl TypeError"
  using assms
  by (auto simp: phoneInvalid_def truthy_u_def isString_def split: option.splits uval.splits)

lemma validateForm_u_typed:
  assumes "truthy_u (fd ''phone_number'') \<longrightarrow> isString (fd ''phone_number'')"
    and "truthy_u (fd ''mobile_number'') \<longrightarrow> isString (fd ''mobile_number'')"
  shows "\<exists>m. validateForm_u fd = Inr m \<and> (\<forall>k. m k \<noteq> None \<longleftrightarrow> expectedErrors_u fd k)"
proof -
  define m where "m =
    assignIf (truthy_u (fd ''mobile_number'')
              \<and> \<not> test phoneRe (stripSeparators (toString (fd ''mobile_number''))))
      ''mobile_number'' ''Please enter a valid mobile number''
    (assignIf (truthy_u (fd ''phone_number'')
               \<and> \<not> test phoneRe (stripSeparators (toString (fd ''phone_number''))))
      ''phone_number'' ''Please enter a valid phone number''
    (assignIf (truthy_u (fd ''email_id'') \<and> \<not> test emailRe (toString (fd ''email_id'')))
      ''email_id'' ''Please enter a valid email address''
    (assignIf (\<not> truthy_u (fd ''email_id'')) ''email_id'' ''Email is required''
    (assignIf (\<not> truthy_u (fd ''hospital_id'')) ''hospital_id'' ''Hospital is required''
    (assignIf (\<not> truthy_u (fd ''last_name'')) ''last_name'' ''Last Name is required''
    (assignIf (\<not> truthy_u (fd ''first_name'')) ''first_name'' ''First Name is required''
       Map.empty))))))"
  have eq: "validateForm_u fd = Inr m"
    by (simp add: validateForm_u_def Let_def m_def
        phoneInvalid_string [OF assms(1)] phoneInvalid_string [OF assms(2)])
  have "m k \<noteq> None \<longleftrightarrow> expectedErrors_u fd k" for k
  proof -
    have c1: "k = ''first_name'' \<Longrightarrow> ?thesis"
      by (simp add: m_def assignIf_apply expectedErrors_u_def)
    have c2: "k = ''last_name'' \<Longrightarrow> ?thesis"
      by (simp add: m_def assignIf_apply expectedErrors_u_def)
    have c3: "k = ''hospital_id'' \<Longrightarrow> ?thesis"
      by (simp add: m_def assignIf_apply expectedErrors_u_def)
    have c4: "k = ''email_id'' \<Longrightarrow> ?thesis"
      by (simp add: m_def assignIf_apply expectedErrors_u_def emailShape_iff)
    have c5: "k = ''phone_number'' \<Longrightarrow> ?thesis"
      by (simp add: m_def assignIf_apply expectedErrors_u_def tenToTwelveDigits_iff)
    have c6: "k = ''mobile_number'' \<Longrightarrow> ?thesis"
      by (simp add: m_def assignIf_apply expectedErrors_u_def tenToTwelveDigits_iff)
    have c7: ?thesis
      if ne: "k \<noteq> ''first_name''" "k \<noteq> ''last_name''" "k \<noteq> ''hospital_id''"
        "k \<noteq> ''email_id''" "k \<noteq> ''phone_number''" "k \<noteq> ''mobile_number''"
      by (simp add: m_def assignIf_apply expectedErrors_u_def ne)
    from c1 c2 c3 c4 c5 c6 c7 show ?thesis by argo
  qed
  with eq show ?thesis by blast
qed

lemma validateForm_u_TypeError:
  assumes "(truthy_u (fd ''phone_number'') \<and> \<not> isString (fd ''phone_number''))
           \<or> (truthy_u (fd ''mobile_number'') \<and> \<not> isString (fd ''mobile_number''))"
  shows "validateForm_u fd = Inl TypeError"
proof (cases "truthy_u (fd ''phone_number'') \<and> \<not> isString (fd ''phone_number'')")
  case True
  then show ?thesis
    by (simp add: validateForm_u_def Let_def phoneInvalid_TypeError)
next
  case False
  then have p: "truthy_u (fd ''phone_number'') \<longrightarrow> isString (fd ''phone_number'')" by blast
  from False assms
  have "truthy_u (fd ''mobile_number'')" "\<not> isString (fd ''mobile_number'')" by blast+
  then show ?thesis
    by (simp add: validateForm_u_def Let_def phoneInvalid_string [OF p] phoneInvalid_TypeError)
qed

section \<open>The date model on rendered times\<close>

lemma length_js: "length (js s) = length s"
  by (simp add: js_def)

lemma take_onDay: "take 11 (onDay t) = js ''1970-01-01T''"
  by (simp add: onDay_def length_js)

lemma drop_onDay: "drop 11 (onDay t) = t"
  by (simp add: onDay_def length_js)

lemma uint_digitChar:
  assumes "d < 10"
  shows "uint (digitChar d) = 48 + int d"
proof -
  have "48 + d < 2 ^ 16" using assms by simp
  then have "take_bit 16 (48 + d) = 48 + d"
    by (simp only: take_bit_nat_eq_self)
  then have "uint (word_of_nat (48 + d) :: 16 word) = int (48 + d)"
    by (simp add: unsigned_of_nat del: of_nat_add)
  then show ?thesis by (simp add: digitChar_def)
qed

lemma isDigit_digitChar: "d < 10 \<Longrightarrow> isDigit (digitChar d)"
  unfolding isDigit_def word_le_def by (simp add: uint_digitChar)

lemma digit_digitChar: "d < 10 \<Longrightarrow> digit (digitChar d) = int d"
  by (simp add: digit_def uint_digitChar)

lemma two_digits: "int (n div 10) * 10 + int (n mod 10) = int n"
  by presburger


lemma isoLocalDate_renderTime:
  assumes "h < 24" and "m < 60"
  shows "isoLocalDate tz (onDay (renderTime h m)) = Some (tz + (int h * 60 + int m) * 60000)"
proof -
  have d: "h div 10 < 10" "h mod 10 < 10" "m div 10 < 10" "m mod 10 < 10"
    using assms by simp_all
  have hh: "digit (digitChar (h div 10)) * 10 + digit (digitChar (h mod 10)) = int h"
    using d by (simp only: digit_digitChar two_digits)
  have mm: "digit (digitChar (m div 10)) * 10 + digit (digitChar (m mod 10)) = int m"
    using d by (simp only: digit_digitChar two_digits)
  have "isoLocalDate tz (onDay (renderTime h m)) =
          (if int h < 24 \<and> int m < 60 then Some (tz + (int h * 60 + int m) * 60000) else None)"
    unfolding isoLocalDate_def take_onDay drop_onDay renderTime_def
    using d by (simp only: list.case isDigit_digitChar hh mm simp_thms if_True)
  then show ?thesis using assms by simp
qed

lemma renderTime_0900: "renderTime 9 0 = js ''09:00''"
  by (simp add: renderTime_def digitChar_def js_def)

lemma renderTime_0800: "renderTime 8 0 = js ''08:00''"
  by (simp add: renderTime_def digitChar_def js_def)

lemma vf_working_hours_from: "validateForm nd fd ''working_hours_from'' = None"
  by (rule vf_other) simp_all

section \<open>Validation: required fields and formats\<close>

lemma map_nonempty_iff: "m \<noteq> Map.empty \<longleftrightarrow> (\<exists>k. m k \<noteq> None)"
  by auto

lemma pin_examples:
  "validateForm newDate (fd(''pin_code'' \<mapsto> js ''123456'')) ''pin_code'' = None"
  "validateForm newDate (fd(''pin_code'' \<mapsto> js ''12345'')) ''pin_code''
     = Some ''Pin Code must be a 6-digit number''"
  "validateForm newDate (fd(''pin_code'' \<mapsto> js ''1234567'')) ''pin_code''
     = Some ''Pin Code must be a 6-digit number''"
  "validateForm newDate (fd(''pin_code'' \<mapsto> js ''12a456'')) ''pin_code''
     = Some ''Pin Code must be a 6-digit number''"
  by (simp_all add: vf_pin_code truthy_def test_pinCodeRe js_def isDigit_def)

text \<open>
  C3. Email is not a required field of the hospital form: the sample draft has an
  empty email and validates to the empty mapping.
\<close>

theorem hospital_email_not_required:
  "sampleDraft ''email'' = Some []
   \<and> validateForm (isoLocalDate 0) sampleDraft = Map.empty"
proof -
  have fields: "sampleDraft ''clinic_name'' = Some (js ''City Clinic'')"
    "sampleDraft ''address'' = Some (js ''12 Lake Road'')"
    "sampleDraft ''pin_code'' = Some (js ''560001'')"
    "sampleDraft ''phone_number'' = Some []"
    "sampleDraft ''mobile_number'' = Some []"
    "sampleDraft ''email'' = Some []"
    "sampleDraft ''working_hours_from'' = Some []"
    "sampleDraft ''working_hours_to'' = Some []"
    by (simp_all add: sampleDraft_def initialFormData_def)
  have "validateForm (isoLocalDate 0) sampleDraft = Map.empty"
    by (simp add: validateForm_def Let_def assignIf_def fields truthy_def
        test_pinCodeRe js_def isDigit_def)
  with fields show ?thesis by simp
qed

text \<open>
  C3 (amended). For every hospital draft the keys of the validation result are exactly
  the fields in error: clinic name, address and pin code when missing; pin code when
  not exactly 6 digits; phone and mobile number when present and not 10 to 12 digits
  after stripping separators; email when present and not of the shape
  \<open>local@domain.tld\<close> (email is optional here); the upper working-hours bound when
  both bounds are present and the lower is not earlier. For every user draft whose
  phone fields hold strings the keys are exactly: first name, last name, hospital
  reference and email when missing; email when malformed; phone and mobile number when
  present and malformed. In both cases the result is non-empty exactly when some field
  is in error. Pin code \<open>123456\<close> produces no \<open>pin_code\<close> key; \<open>12345\<close>,
  \<open>1234567\<close> and \<open>12a456\<close> each produce the 6-digit error.
\<close>

theorem validate_keys:
  "dom (validateForm newDate fd) = {k. expectedErrors newDate fd k}
   \<and> (validateForm newDate fd \<noteq> Map.empty \<longleftrightarrow> (\<exists>k. expectedErrors newDate fd k))
   \<and> ((truthy_u (ud ''phone_number'') \<longrightarrow> isString (ud ''phone_number''))
        \<and> (truthy_u (ud ''mobile_number'') \<longrightarrow> isString (ud ''mobile_number''))
       \<longrightarrow> (\<exists>m. validateForm_u ud = Inr m
                \<and> dom m = {k. expectedErrors_u ud k}
                \<and> (m \<noteq> Map.empty \<longleftrightarrow> (\<exists>k. expectedErrors_u ud k))))
   \<and> validateForm newDate (fd(''pin_code'' \<mapsto> js ''123456'')) ''pin_code'' = None
   \<and> validateForm newDate (fd(''pin_code'' \<mapsto> js ''12345'')) ''pin_code''
       = Some ''Pin Code must be a 6-digit number''
   \<and> validateForm newDate (fd(''pin_code'' \<mapsto> js ''1234567'')) ''pin_code''
       = Some ''Pin Code must be a 6-digit number''
   \<and> validateForm newDate (fd(''pin_code'' \<mapsto> js ''12a456'')) ''pin_code''
       = Some ''Pin Code must be a 6-digit number''"
proof -
  have h2: "validateForm newDate fd \<noteq> Map.empty \<longleftrightarrow> (\<exists>k. expectedErrors newDate fd k)"
    unfolding map_nonempty_iff validateForm_in_error ..
  have u: "\<exists>m. validateForm_u ud = Inr m
                \<and> dom m = {k. expectedErrors_u ud k}
                \<and> (m \<noteq> Map.empty \<longleftrightarrow> (\<exists>k. expectedErrors_u ud k))"
    if "truthy_u (ud ''phone_number'') \<longrightarrow> isString (ud ''phone_number'')"
      and "truthy_u (ud ''mobile_number'') \<longrightarrow> isString (ud ''mobile_number'')"
  proof -
    from validateForm_u_typed [OF that]
    obtain m where m: "validateForm_u ud = Inr m" "\<And>k. m k \<noteq> None \<longleftrightarrow> expectedErrors_u ud k"
      by blast
    have "dom m = {k. expectedErrors_u ud k}"
      by (auto simp: dom_def m(2) [symmetric])
    moreover have "m \<noteq> Map.empty \<longleftrightarrow> (\<exists>k. expectedErrors_u ud k)"
      unfolding map_nonempty_iff m(2) ..
    ultimately show ?thesis using m(1) by blast
  qed
  from dom_validateForm [of newDate fd] h2 u pin_examples [of newDate fd]
  show ?thesis by blast
qed

text \<open>
  C3, witness: a hospital draft without address and with pin code \<open>12a456\<close>, and a
  user draft without hospital reference.
\<close>

theorem validate_keys_witness:
  "''address'' \<in> dom (validateForm (isoLocalDate 0)
       (sampleDraft(''address'' \<mapsto> [], ''pin_code'' \<mapsto> js ''12a456'')))
   \<and> ''pin_code'' \<in> dom (validateForm (isoLocalDate 0)
       (sampleDraft(''address'' \<mapsto> [], ''pin_code'' \<mapsto> js ''12a456'')))
   \<and> ''clinic_name'' \<notin> dom (validateForm (isoLocalDate 0)
       (sampleDraft(''address'' \<mapsto> [], ''pin_code'' \<mapsto> js ''12a456'')))
   \<and> validateForm (isoLocalDate 0)
       (sampleDraft(''address'' \<mapsto> [], ''pin_code'' \<mapsto> js ''12a456'')) \<noteq> Map.empty
   \<and> isString ((sampleDraft_u(''hospital_id'' \<mapsto> UStr [])) ''phone_number'')
   \<and> isString ((sampleDraft_u(''hospital_id'' \<mapsto> UStr [])) ''mobile_number'')
   \<and> (\<exists>m. validateForm_u (sampleDraft_u(''hospital_id'' \<mapsto> UStr [])) = Inr m
          \<and> ''hospital_id'' \<in> dom m \<and> ''first_name'' \<notin> dom m \<and> m \<noteq> Map.empty)"
proof -
  let ?d = "sampleDraft(''address'' \<mapsto> [], ''pin_code'' \<mapsto> js ''12a456'')"
  let ?u = "sampleDraft_u(''hospital_id'' \<mapsto> UStr [])"
  have e1: "expectedErrors (isoLocalDate 0) ?d ''address''"
    by (simp add: expectedErrors_def truthy_def)
  have e2: "expectedErrors (isoLocalDate 0) ?d ''pin_code''"
    by (simp add: expectedErrors_def truthy_def sixDigits_def js_def isDigit_def)
  have e3: "\<not> expectedErrors (isoLocalDate 0) ?d ''clinic_name''"
    by (simp add: expectedErrors_def truthy_def sampleDraft_def js_def)
  have t1: "isString (?u ''phone_number'')"
    by (simp add: sampleDraft_u_def initialFormData_u_def isString_def)
  have t2: "isString (?u ''mobile_number'')"
    by (simp add: sampleDraft_u_def initialFormData_u_def isString_def)
  have u1: "expectedErrors_u ?u ''hospital_id''"
    by (simp add: expectedErrors_u_def truthy_u_def)
  have u2: "\<not> expectedErrors_u ?u ''first_name''"
    by (simp add: expectedErrors_u_def truthy_u_def sampleDraft_u_def js_def)
  from validate_keys [of "isoLocalDate 0" ?d ?u] e1 e2 e3 t1 t2 u1 u2
  show ?thesis by blast
qed

section \<open>Validation: separators in phone numbers\<close>

lemma stripSeparators_idem: "stripSeparators (stripSeparators s) = stripSeparators s"
  by (simp add: stripSeparators_def)

lemma truthy_strip:
  assumes "s = [] \<or> stripSeparators s \<noteq> []"
  shows "truthy (Some (stripSeparators s)) = truthy (Some s)"
  using assms by (auto simp: truthy_def stripSeparators_def)

lemma phoneInvalid_strip:
  assumes "s = [] \<or> stripSeparators s \<noteq> []"
  shows "phoneInvalid (Some (UStr (stripSeparators s))) = phoneInvalid (Some (UStr s))"
  using assms by (auto simp: phoneInvalid_def truthy_u_def stripSeparators_def)

lemma validateForm_strip_phone:
  assumes "s = [] \<or> stripSeparators s \<noteq> []"
  shows "validateForm nd (fd(''phone_number'' \<mapsto> stripSeparators s))
           = validateForm nd (fd(''phone_number'' \<mapsto> s))"
  by (simp add: validateForm_def Let_def truthy_strip [OF assms] stripSeparators_idem)

lemma validateForm_strip_mobile:
  assumes "s = [] \<or> stripSeparators s \<noteq> []"
  shows "validateForm nd (fd(''mobile_number'' \<mapsto> stripSeparators s))
           = validateForm nd (fd(''mobile_number'' \<mapsto> s))"
  by (simp add: validateForm_def Let_def truthy_strip [OF assms] stripSeparators_idem)

lemma validateForm_u_strip_phone:
  assumes "s = [] \<or> stripSeparators s \<noteq> []"
  shows "validateForm_u (ud(''phone_number'' \<mapsto> UStr (stripSeparators s)))
           = validateForm_u (ud(''phone_number'' \<mapsto> UStr s))"
  by (simp add: validateForm_u_def Let_def phoneInvalid_strip [OF assms] cong: sum.case_cong)

lemma validateForm_u_strip_mobile:
  assumes "s = [] \<or> stripSeparators s \<noteq> []"
  shows "validateForm_u (ud(''mobile_number'' \<mapsto> UStr (stripSeparators s)))
           = validateForm_u (ud(''mobile_number'' \<mapsto> UStr s))"
  by (simp add: validateForm_u_def Let_def phoneInvalid_strip [OF assms] cong: sum.case_cong)

lemma separators_only_phone:
  assumes "s \<noteq> []" and "stripSeparators s = []"
  shows "validateForm nd (fd(''phone_number'' \<mapsto> s)) ''phone_number''
           = Some ''Please enter a valid phone number''"
    and "validateForm nd (fd(''phone_number'' \<mapsto> stripSeparators s)) ''phone_number'' = None"
    and "validateForm nd (fd(''mobile_number'' \<mapsto> s)) ''mobile_number''
           = Some ''Please enter a valid mobile number''"
    and "validateForm nd (fd(''mobile_number'' \<mapsto> stripSeparators s)) ''mobile_number'' = None"
  using assms
  by (simp_all add: vf_phone_number vf_mobile_number truthy_def test_phoneRe)

text \<open>
  C4. The phone number \<open>-\<close> is reported invalid; stripped, it is the empty string,
  which the rule for an optional field accepts.
\<close>

theorem separator_only_phone_differs:
  "validateForm (isoLocalDate 0) (sampleDraft(''phone_number'' \<mapsto> js ''-'')) ''phone_number''
     = Some ''Please enter a valid phone number''
   \<and> validateForm (isoLocalDate 0)
        (sampleDraft(''phone_number'' \<mapsto> stripSeparators (js ''-''))) ''phone_number''
     = None"
proof -
  have sep: "js ''-'' \<noteq> []" "stripSeparators (js ''-'') = []"
    by (simp_all add: js_def stripSeparators_def isSeparator_def)
  show ?thesis
    by (intro conjI) (rule separators_only_phone [OF sep])+
qed

text \<open>
  C4 (amended). Stripping separators is idempotent, and for every string \<open>s\<close> that
  is empty or keeps a character after stripping, validation is invariant under
  pre-stripping \<open>s\<close> in the phone or mobile field: the whole validation result, and so
  the result for that field, is the same for the stripped and the original value, on
  both screens. A non-empty string made of separators only is reported invalid, while
  its stripped form, the empty string, is accepted.
\<close>

theorem strip_invariance:
  "stripSeparators (stripSeparators s) = stripSeparators s
   \<and> ((k = ''phone_number'' \<or> k = ''mobile_number'') \<and> (s = [] \<or> stripSeparators s \<noteq> [])
       \<longrightarrow> validateForm newDate (fd(k \<mapsto> stripSeparators s)) = validateForm newDate (fd(k \<mapsto> s))
         \<and> validateForm newDate (fd(k \<mapsto> stripSeparators s)) k
             = validateForm newDate (fd(k \<mapsto> s)) k
         \<and> validateForm_u (ud(k \<mapsto> UStr (stripSeparators s)))
             = validateForm_u (ud(k \<mapsto> UStr s)))
   \<and> (s \<noteq> [] \<and> stripSeparators s = []
       \<longrightarrow> validateForm newDate (fd(''phone_number'' \<mapsto> s)) ''phone_number'' \<noteq> None
         \<and> validateForm newDate (fd(''phone_number'' \<mapsto> stripSeparators s)) ''phone_number''
             = None
         \<and> validateForm newDate (fd(''mobile_number'' \<mapsto> s)) ''mobile_number'' \<noteq> None
         \<and> validateForm newDate (fd(''mobile_number'' \<mapsto> stripSeparators s)) ''mobile_number''
             = None)"
proof -
  have inv: "validateForm newDate (fd(k \<mapsto> stripSeparators s)) = validateForm newDate (fd(k \<mapsto> s))
         \<and> validateForm newDate (fd(k \<mapsto> stripSeparators s)) k
             = validateForm newDate (fd(k \<mapsto> s)) k
         \<and> validateForm_u (ud(k \<mapsto> UStr (stripSeparators s)))
             = validateForm_u (ud(k \<mapsto> UStr s))"
    if k: "k = ''phone_number'' \<or> k = ''mobile_number''"
      and s: "s = [] \<or> stripSeparators s \<noteq> []"
  proof -
    from k show ?thesis
    proof
      assume "k = ''phone_number''"
      then show ?thesis
        by (simp only: validateForm_strip_phone [OF s] validateForm_u_strip_phone [OF s] simp_thms)
    next
      assume "k = ''mobile_number''"
      then show ?thesis
        by (simp only: validateForm_strip_mobile [OF s] validateForm_u_strip_mobile [OF s] simp_thms)
    qed
  qed
  have sep: "validateForm newDate (fd(''phone_number'' \<mapsto> s)) ''phone_number'' \<noteq> None
         \<and> validateForm newDate (fd(''phone_number'' \<mapsto> stripSeparators s)) ''phone_number''
             = None
         \<and> validateForm newDate (fd(''mobile_number'' \<mapsto> s)) ''mobile_number'' \<noteq> None
         \<and> validateForm newDate (fd(''mobile_number'' \<mapsto> stripSeparators s)) ''mobile_number''
             = None"
    if "s \<noteq> []" "stripSeparators s = []"
    using separators_only_phone [OF that, of newDate fd] by simp
  from stripSeparators_idem [of s] inv sep show ?thesis by blast
qed

text \<open>C4, witness: a formatted phone number, and a mobile number of separators only.\<close>

theorem strip_invariance_witness:
  "stripSeparators (js ''(080) 2345-6789'') \<noteq> []
   \<and> stripSeparators (js ''(080) 2345-6789'') = js ''08023456789''
   \<and> validateForm (isoLocalDate 0) (sampleDraft(''phone_number'' \<mapsto> js ''08023456789''))
       = validateForm (isoLocalDate 0) (sampleDraft(''phone_number'' \<mapsto> js ''(080) 2345-6789''))
   \<and> validateForm_u (sampleDraft_u(''phone_number'' \<mapsto> UStr (js ''08023456789'')))
       = validateForm_u (sampleDraft_u(''phone_number'' \<mapsto> UStr (js ''(080) 2345-6789'')))
   \<and> js ''( )'' \<noteq> [] \<and> stripSeparators (js ''( )'') = []
   \<and> validateForm (isoLocalDate 0) (sampleDraft(''mobile_number'' \<mapsto> js ''( )''))
        ''mobile_number'' \<noteq> None"
proof -
  have a: "stripSeparators (js ''(080) 2345-6789'') = js ''08023456789''"
    by (simp add: js_def stripSeparators_def isSeparator_def isSpace_def)
  have b: "js ''08023456789'' \<noteq> []"
    by (simp add: js_def)
  have c: "js ''( )'' \<noteq> []" "stripSeparators (js ''( )'') = []"
    by (simp_all add: js_def stripSeparators_def isSeparator_def isSpace_def)
  from strip_invariance [of "js ''(080) 2345-6789''" "''phone_number''" "isoLocalDate 0"
      sampleDraft sampleDraft_u]
    strip_invariance [of "js ''( )''" "''mobile_number''" "isoLocalDate 0"
      sampleDraft sampleDraft_u] a b c
  show ?thesis by simp
qed

section \<open>Validation: working hours\<close>

lemma hours_rule:
  assumes "fd ''working_hours_from'' = Some f" and "f \<noteq> []"
    and "fd ''working_hours_to'' = Some t" and "t \<noteq> []"
    and "newDate (onDay f) = Some a" and "newDate (onDay t) = Some b"
  shows "validateForm newDate fd ''working_hours_to'' =
           (if a < b then None
            else Some ''Working Hours To must be later than Working Hours From'')"
  using assms by (simp add: vf_working_hours_to truthy_def dateGe_def)

lemma hours_rule_rendered:
  assumes "h < 24" and "m < 60" and "h' < 24" and "m' < 60"
  shows "validateForm (isoLocalDate tz)
           (fd(''working_hours_from'' \<mapsto> renderTime h m,
               ''working_hours_to'' \<mapsto> renderTime h' m')) ''working_hours_to'' =
           (if h * 60 + m < h' * 60 + m' then None
            else Some ''Working Hours To must be later than Working Hours From'')"
proof -
  have ne: "renderTime h m \<noteq> []" "renderTime h' m' \<noteq> []"
    by (simp_all add: renderTime_def)
  have "validateForm (isoLocalDate tz)
           (fd(''working_hours_from'' \<mapsto> renderTime h m,
               ''working_hours_to'' \<mapsto> renderTime h' m')) ''working_hours_to'' =
           (if tz + (int h * 60 + int m) * 60000 < tz + (int h' * 60 + int m') * 60000 then None
            else Some ''Working Hours To must be later than Working Hours From'')"
    by (rule hours_rule [OF _ ne(1) _ ne(2)])
       (simp_all add: isoLocalDate_renderTime assms)
  moreover have "tz + (int h * 60 + int m) * 60000 < tz + (int h' * 60 + int m') * 60000
      \<longleftrightarrow> h * 60 + m < h' * 60 + m'"
    by auto
  ultimately show ?thesis by simp
qed

text \<open>
  C5. For every draft with both working-hours bounds present, denoting the instants
  \<open>a\<close> and \<open>b\<close>, validation reports an error on \<open>working_hours_to\<close> exactly when
  \<open>a < b\<close> fails, and never one on \<open>working_hours_from\<close>. For rendered clock
  times \<open>HH:MM\<close> that is: unless the "from" time is strictly earlier. With 09:00 to
  08:00, and with 09:00 to 09:00, \<open>working_hours_to\<close> is in error; with 08:00 to
  09:00 it is not.
\<close>

theorem working_hours_rule:
  assumes "fd ''working_hours_from'' = Some f" and "f \<noteq> []"
    and "fd ''working_hours_to'' = Some t" and "t \<noteq> []"
    and "newDate (onDay f) = Some a" and "newDate (onDay t) = Some b"
  shows "validateForm newDate fd ''working_hours_to'' =
           (if a < b then None
            else Some ''Working Hours To must be later than Working Hours From'')
       \<and> validateForm newDate fd ''working_hours_from'' = None
       \<and> (\<forall>h m h' m'. h < 24 \<and> m < 60 \<and> h' < 24 \<and> m' < 60 \<longrightarrow>
            validateForm (isoLocalDate tz)
              (fd(''working_hours_from'' \<mapsto> renderTime h m,
                  ''working_hours_to'' \<mapsto> renderTime h' m')) ''working_hours_to'' =
              (if h * 60 + m < h' * 60 + m' then None
               else Some ''Working Hours To must be later than Working Hours From''))
       \<and> validateForm (isoLocalDate tz)
            (fd(''working_hours_from'' \<mapsto> js ''09:00'', ''working_hours_to'' \<mapsto> js ''08:00''))
            ''working_hours_to''
          = Some ''Working Hours To must be later than Working Hours From''
       \<and> validateForm (isoLocalDate tz)
            (fd(''working_hours_from'' \<mapsto> js ''09:00'', ''working_hours_to'' \<mapsto> js ''09:00''))
            ''working_hours_to''
          = Some ''Working Hours To must be later than Working Hours From''
       \<and> validateForm (isoLocalDate tz)
            (fd(''working_hours_from'' \<mapsto> js ''08:00'', ''working_hours_to'' \<mapsto> js ''09:00''))
            ''working_hours_to''
          = None"
proof -
  have ex1: "validateForm (isoLocalDate tz)
            (fd(''working_hours_from'' \<mapsto> js ''09:00'', ''working_hours_to'' \<mapsto> js ''08:00''))
            ''working_hours_to''
          = Some ''Working Hours To must be later than Working Hours From''"
    using hours_rule_rendered [of 9 0 8 0 tz fd]
    by (simp add: renderTime_0900 renderTime_0800)
  have ex2: "validateForm (isoLocalDate tz)
            (fd(''working_hours_from'' \<mapsto> js ''09:00'', ''working_hours_to'' \<mapsto> js ''09:00''))
            ''working_hours_to''
          = Some ''Working Hours To must be later than Working Hours From''"
    using hours_rule_rendered [of 9 0 9 0 tz fd]
    by (simp add: renderTime_0900)
  have ex3: "validateForm (isoLocalDate tz)
            (fd(''working_hours_from'' \<mapsto> js ''08:00'', ''working_hours_to'' \<mapsto> js ''09:00''))
            ''working_hours_to''
          = None"
    using hours_rule_rendered [of 8 0 9 0 tz fd]
    by (simp add: renderTime_0900 renderTime_0800)
  from hours_rule [OF assms] vf_working_hours_from [of newDate fd]
    hours_rule_rendered [of _ _ _ _ tz fd] ex1 ex2 ex3
  show ?thesis by blast
qed

text \<open>C5, witness: working hours 09:00 to 17:30, and the reverse.\<close>

theorem working_hours_rule_witness:
  "(sampleDraft(''working_hours_from'' \<mapsto> js ''09:00'', ''working_hours_to'' \<mapsto> js ''17:30''))
      ''working_hours_from'' = Some (js ''09:00'')
   \<and> js ''09:00'' \<noteq> []
   \<and> (sampleDraft(''working_hours_from'' \<mapsto> js ''09:00'', ''working_hours_to'' \<mapsto> js ''17:30''))
      ''working_hours_to'' = Some (js ''17:30'')
   \<and> js ''17:30'' \<noteq> []
   \<and> isoLocalDate 0 (onDay (js ''09:00'')) = Some 32400000
   \<and> isoLocalDate 0 (onDay (js ''17:30'')) = Some 63000000
   \<and> validateForm (isoLocalDate 0)
        (sampleDraft(''working_hours_from'' \<mapsto> js ''09:00'', ''working_hours_to'' \<mapsto> js ''17:30''))
        ''working_hours_to'' = None
   \<and> validateForm (isoLocalDate 0)
        (sampleDraft(''working_hours_from'' \<mapsto> js ''09:00'', ''working_hours_to'' \<mapsto> js ''17:30''))
        ''working_hours_from'' = None
   \<and> validateForm (isoLocalDate 0)
        (sampleDraft(''working_hours_from'' \<mapsto> js ''09:00'', ''working_hours_to'' \<mapsto> js ''17:30'',
                     ''working_hours_from'' \<mapsto> renderTime 17 30,
                     ''working_hours_to'' \<mapsto> renderTime 9 0))
        ''working_hours_to''
       = Some ''Working Hours To must be later than Working Hours From''"
proof -
  let ?d = "sampleDraft(''working_hours_from'' \<mapsto> js ''09:00'', ''working_hours_to'' \<mapsto> js ''17:30'')"
  have r: "js ''09:00'' = renderTime 9 0" "js ''17:30'' = renderTime 17 30"
    by (simp_all add: renderTime_def digitChar_def js_def)
  have f: "?d ''working_hours_from'' = Some (js ''09:00'')" "js ''09:00'' \<noteq> []"
    by (simp_all add: js_def)
  have t: "?d ''working_hours_to'' = Some (js ''17:30'')" "js ''17:30'' \<noteq> []"
    by (simp_all add: js_def)
  have a: "isoLocalDate 0 (onDay (js ''09:00'')) = Some 32400000"
    unfolding r by (subst isoLocalDate_renderTime) simp_all
  have b: "isoLocalDate 0 (onDay (js ''17:30'')) = Some 63000000"
    unfolding r by (subst isoLocalDate_renderTime) simp_all
  note w = working_hours_rule [where fd = ?d and tz = 0, OF f t a b]
  have w1: "validateForm (isoLocalDate 0) ?d ''working_hours_to'' = None"
    using w [THEN conjunct1] by simp
  have w2: "validateForm (isoLocalDate 0) ?d ''working_hours_from'' = None"
    by (rule w [THEN conjunct2, THEN conjunct1])
  have "(17::nat) < 24 \<and> (30::nat) < 60 \<and> (9::nat) < 24 \<and> (0::nat) < 60"
    by simp
  with w [THEN conjunct2, THEN conjunct2, THEN conjunct1]
  have "validateForm (isoLocalDate 0)
        (?d(''working_hours_from'' \<mapsto> renderTime 17 30, ''working_hours_to'' \<mapsto> renderTime 9 0))
        ''working_hours_to''
       = (if (17::nat) * 60 + 30 < 9 * 60 + 0 then None
          else Some ''Working Hours To must be later than Working Hours From'')"
    by blast
  then have w3: "validateForm (isoLocalDate 0)
        (?d(''working_hours_from'' \<mapsto> renderTime 17 30, ''working_hours_to'' \<mapsto> renderTime 9 0))
        ''working_hours_to''
       = Some ''Working Hours To must be later than Working Hours From''"
    by simp
  from f t a b w1 w2 w3 show ?thesis by blast
qed

section \<open>Field mutation\<close>

lemma handleInputChange_eq:
  "handleInputChange name value s =
     s\<lparr>formData := (formData s)(name \<mapsto> value),
       validation := (if truthy (validation s name) then (validation s)(name \<mapsto> [])
                      else validation s)\<rparr>"
  by (simp add: handleInputChange_def Let_def)

lemma handleInputChange_u_eq:
  "handleInputChange_u name value s =
     s\<lparr>formData_u := (formData_u s)(name \<mapsto> UStr value),
       validation_u := (if truthy (validation_u s name) then (validation_u s)(name \<mapsto> [])
                        else validation_u s)\<rparr>"
  by (simp add: handleInputChange_u_def Let_def)

lemma not_truthy_cleared:
  "\<not> truthy ((if truthy (v name) then v(name \<mapsto> []) else v) name)"
  by (simp add: truthy_def)

lemma onChangeWorkingHoursFrom_eq:
  "onChangeWorkingHoursFrom (t # ts) s =
     s\<lparr>formData := (formData s)(''working_hours_from'' \<mapsto> t),
       validation := (if truthy (validation s ''working_hours_to'')
                      then (validation s)(''working_hours_to'' \<mapsto> [])
                      else validation s)\<rparr>"
  by (simp add: onChangeWorkingHoursFrom_def Let_def)

text \<open>
  C6 (amended). For every field \<open>f\<close> and value \<open>v\<close>, the text-input handler
  \<open>handleInputChange\<close> of either screen sets draft field \<open>f\<close> to \<open>v\<close>, leaves no
  validation error for \<open>f\<close> (a non-empty message becomes the empty string), and leaves
  every other validation entry, every other draft field and the rest of the state
  unchanged. The select and checkbox handlers of the user screen set draft field \<open>f\<close>
  and leave every other draft field and every other field's validation entry
  unchanged. The working-hours "from" picker of the hospital screen sets
  \<open>working_hours_from\<close>, leaves no error on \<open>working_hours_to\<close>, and leaves every
  other validation entry unchanged.
\<close>

theorem field_mutation:
  "formData (handleInputChange f v s) = (formData s)(f \<mapsto> v)
   \<and> \<not> truthy (validation (handleInputChange f v s) f)
   \<and> (\<forall>k. k \<noteq> f \<longrightarrow> validation (handleInputChange f v s) k = validation s k
                     \<and> formData (handleInputChange f v s) k = formData s k)
   \<and> handleInputChange f v s =
       s\<lparr>formData := formData (handleInputChange f v s),
         validation := validation (handleInputChange f v s)\<rparr>
   \<and> formData_u (handleInputChange_u f v u) = (formData_u u)(f \<mapsto> UStr v)
   \<and> \<not> truthy (validation_u (handleInputChange_u f v u) f)
   \<and> (\<forall>k. k \<noteq> f \<longrightarrow> validation_u (handleInputChange_u f v u) k = validation_u u k
                     \<and> formData_u (handleInputChange_u f v u) k = formData_u u k)
   \<and> handleInputChange_u f v u =
       u\<lparr>formData_u := formData_u (handleInputChange_u f v u),
         validation_u := validation_u (handleInputChange_u f v u)\<rparr>
   \<and> formData_u (handleSelectChange f v u) = (formData_u u)(f \<mapsto> UStr v)
   \<and> formData_u (handleCheckboxChange f b u) = (formData_u u)(f \<mapsto> UBool b)
   \<and> (\<forall>k. k \<noteq> f \<longrightarrow> validation_u (handleSelectChange f v u) k = validation_u u k
                     \<and> formData_u (handleSelectChange f v u) k = formData_u u k
                     \<and> validation_u (handleCheckboxChange f b u) k = validation_u u k
                     \<and> formData_u (handleCheckboxChange f b u) k = formData_u u k)
   \<and> formData (onChangeWorkingHoursFrom (t # ts) s)
       = (formData s)(''working_hours_from'' \<mapsto> t)
   \<and> \<not> truthy (validation (onChangeWorkingHoursFrom (t # ts) s) ''working_hours_to'')
   \<and> (\<forall>k. k \<noteq> ''working_hours_to'' \<longrightarrow>
          validation (onChangeWorkingHoursFrom (t # ts) s) k = validation s k)"
proof -
  have a: "formData (handleInputChange f v s) = (formData s)(f \<mapsto> v)"
    "\<not> truthy (validation (handleInputChange f v s) f)"
    "\<forall>k. k \<noteq> f \<longrightarrow> validation (handleInputChange f v s) k = validation s k
                     \<and> formData (handleInputChange f v s) k = formData s k"
    "handleInputChange f v s =
       s\<lparr>formData := formData (handleInputChange f v s),
         validation := validation (handleInputChange f v s)\<rparr>"
    by (simp_all add: handleInputChange_eq truthy_def)
  have b: "formData_u (handleInputChange_u f v u) = (formData_u u)(f \<mapsto> UStr v)"
    "\<not> truthy (validation_u (handleInputChange_u f v u) f)"
    "\<forall>k. k \<noteq> f \<longrightarrow> validation_u (handleInputChange_u f v u) k = validation_u u k
                     \<and> formData_u (handleInputChange_u f v u) k = formData_u u k"
    "handleInputChange_u f v u =
       u\<lparr>formData_u := formData_u (handleInputChange_u f v u),
         validation_u := validation_u (handleInputChange_u f v u)\<rparr>"
    by (simp_all add: handleInputChange_u_eq truthy_def)
  have c: "formData_u (handleSelectChange f v u) = (formData_u u)(f \<mapsto> UStr v)"
    "formData_u (handleCheckboxChange f b u) = (formData_u u)(f \<mapsto> UBool b)"
    "\<forall>k. k \<noteq> f \<longrightarrow> validation_u (handleSelectChange f v u) k = validation_u u k
                     \<and> formData_u (handleSelectChange f v u) k = formData_u u k
                     \<and> validation_u (handleCheckboxChange f b u) k = validation_u u k
                     \<and> formData_u (handleCheckboxChange f b u) k = formData_u u k"
    by (simp_all add: handleSelectChange_def handleCheckboxChange_def)
  have d: "formData (onChangeWorkingHoursFrom (t # ts) s)
       = (formData s)(''working_hours_from'' \<mapsto> t)"
    "\<not> truthy (validation (onChangeWorkingHoursFrom (t # ts) s) ''working_hours_to'')"
    "\<forall>k. k \<noteq> ''working_hours_to'' \<longrightarrow>
          validation (onChangeWorkingHoursFrom (t # ts) s) k = validation s k"
    by (simp_all add: onChangeWorkingHoursFrom_eq truthy_def)
  from a b c d show ?thesis by blast
qed

section \<open>Submit\<close>

lemma handleSubmit_invalid:
  assumes "validateForm nd (formData s) \<noteq> Map.empty"
  shows "handleSubmit srv nd today (s, log) = (s\<lparr>validation := validateForm nd (formData s)\<rparr>, log)"
  using assms by (simp add: handleSubmit_def Let_def)

lemma handleSubmit_rejected:
  assumes "validateForm nd (formData s) = Map.empty" and "srv log (saveRequest s) = None"
  shows "handleSubmit srv nd today (s, log) =
           (s\<lparr>validation := Map.empty, isLoading := False,
              error := Some ''Error saving hospital data. Please try again.''\<rparr>,
            log @ [saveRequest s])"
  using assms by (simp add: handleSubmit_def Let_def)

lemma handleSubmit_saved:
  assumes "validateForm nd (formData s) = Map.empty" and "srv log (saveRequest s) = Some r"
    and "status r = 200 \<or> status r = 201"
  shows "handleSubmit srv nd today (s, log) =
           ((handleCloseModal today
               (fetchDone (currentPage s)
                  (srv (log @ [saveRequest s])
                     (GET (js ''/hospital'') (listParams (currentPage s) (searchTerm s))))
                  (s\<lparr>validation := Map.empty, isLoading := True, error := None\<rparr>)))
              \<lparr>isLoading := False\<rparr>,
            log @ [saveRequest s,
                   GET (js ''/hospital'') (listParams (currentPage s) (searchTerm s))])"
  using assms by (simp add: handleSubmit_def Let_def fetchHospitals_def fetchStart_def)

lemma handleSubmit_not_refetched:
  assumes "validateForm nd (formData s) = Map.empty" and "srv log (saveRequest s) = Some r"
    and "\<not> (status r = 200 \<or> status r = 201)"
  shows "handleSubmit srv nd today (s, log) =
           ((handleCloseModal today (s\<lparr>validation := Map.empty, isLoading := True, error := None\<rparr>))
              \<lparr>isLoading := False\<rparr>,
            log @ [saveRequest s])"
  using assms by (simp add: handleSubmit_def Let_def)

lemma closed_fields:
  "formData ((handleCloseModal today s)\<lparr>isLoading := False\<rparr>) = initialFormData today"
  "validation ((handleCloseModal today s)\<lparr>isLoading := False\<rparr>) = Map.empty"
  "editingHospital ((handleCloseModal today s)\<lparr>isLoading := False\<rparr>) = None"
  "isModalOpen ((handleCloseModal today s)\<lparr>isLoading := False\<rparr>) = False"
  by (simp_all add: handleCloseModal_def)

lemma handleSubmit_success_closes:
  assumes "validateForm nd (formData s) = Map.empty" and "srv log (saveRequest s) = Some r"
  shows "formData (fst (handleSubmit srv nd today (s, log))) = initialFormData today
       \<and> validation (fst (handleSubmit srv nd today (s, log))) = Map.empty
       \<and> editingHospital (fst (handleSubmit srv nd today (s, log))) = None
       \<and> isModalOpen (fst (handleSubmit srv nd today (s, log))) = False"
proof (cases "status r = 200 \<or> status r = 201")
  case True
  show ?thesis
    unfolding handleSubmit_saved [where srv = srv and log = log, OF assms True] fst_conv closed_fields
    by simp
next
  case False
  show ?thesis
    unfolding handleSubmit_not_refetched [where srv = srv and log = log, OF assms False] fst_conv
      closed_fields
    by simp
qed

lemma handleSubmit_u_TypeError:
  assumes "validateForm_u (formData_u u) = Inl e"
  shows "handleSubmit_u srv (u, log) = Inl e"
  using assms by (simp add: handleSubmit_u_def Let_def)

lemma handleSubmit_u_invalid:
  assumes "validateForm_u (formData_u u) = Inr m" and "m \<noteq> Map.empty"
  shows "handleSubmit_u srv (u, log) = Inr (u\<lparr>validation_u := m\<rparr>, log)"
  using assms by (simp add: handleSubmit_u_def Let_def)

lemma handleSubmit_u_rejected:
  assumes "validateForm_u (formData_u u) = Inr Map.empty" and "srv log (saveRequest_u u) = None"
  shows "handleSubmit_u srv (u, log) =
           Inr (u\<lparr>validation_u := Map.empty, isLoading_u := False,
                  error_u := Some ''Error saving user data. Please try again.''\<rparr>,
                log @ [saveRequest_u u])"
  using assms by (simp add: handleSubmit_u_def Let_def)

lemma handleSubmit_u_saved:
  assumes "validateForm_u (formData_u u) = Inr Map.empty"
    and "srv log (saveRequest_u u) = Some r"
    and "status r = 200 \<or> status r = 201"
  shows "handleSubmit_u srv (u, log) =
           Inr ((handleCloseModal_u
               (fetchDone_u (currentPage_u u)
                  (srv (log @ [saveRequest_u u])
                     (GET (js ''/hospitaluser'')
                        (listParams_u (currentPage_u u) (searchTerm_u u) (selectedHospital u))))
                  (u\<lparr>validation_u := Map.empty, isLoading_u := True, error_u := None\<rparr>)))
              \<lparr>isLoading_u := False\<rparr>,
            log @ [saveRequest_u u,
                   GET (js ''/hospitaluser'')
                     (listParams_u (currentPage_u u) (searchTerm_u u) (selectedHospital u))])"
  using assms by (simp add: handleSubmit_u_def Let_def fetchUsers_def fetchStart_u_def)

lemma handleSubmit_u_not_refetched:
  assumes "validateForm_u (formData_u u) = Inr Map.empty"
    and "srv log (saveRequest_u u) = Some r"
    and "\<not> (status r = 200 \<or> status r = 201)"
  shows "handleSubmit_u srv (u, log) =
           Inr ((handleCloseModal_u
                  (u\<lparr>validation_u := Map.empty, isLoading_u := True, error_u := None\<rparr>))
              \<lparr>isLoading_u := False\<rparr>,
            log @ [saveRequest_u u])"
  using assms by (simp add: handleSubmit_u_def Let_def)

lemma closed_fields_u:
  "formData_u ((handleCloseModal_u u)\<lparr>isLoading_u := False\<rparr>) = initialFormData_u"
  "validation_u ((handleCloseModal_u u)\<lparr>isLoading_u := False\<rparr>) = Map.empty"
  "editingUser ((handleCloseModal_u u)\<lparr>isLoading_u := False\<rparr>) = None"
  "isModalOpen_u ((handleCloseModal_u u)\<lparr>isLoading_u := False\<rparr>) = False"
  by (simp_all add: handleCloseModal_u_def)

lemma handleSubmit_u_success_closes:
  assumes "validateForm_u (formData_u u) = Inr Map.empty"
    and "srv log (saveRequest_u u) = Some r"
  shows "\<exists>u' log'. handleSubmit_u srv (u, log) = Inr (u', log')
       \<and> formData_u u' = initialFormData_u
       \<and> validation_u u' = Map.empty
       \<and> editingUser u' = None
       \<and> isModalOpen_u u' = False"
proof (cases "status r = 200 \<or> status r = 201")
  case True
  show ?thesis
    unfolding handleSubmit_u_saved [where srv = srv and log = log, OF assms True]
    by (simp add: closed_fields_u)
next
  case False
  show ?thesis
    unfolding handleSubmit_u_not_refetched [where srv = srv and log = log, OF assms False]
    by (simp add: closed_fields_u)
qed

lemma handleSubmit_new_requests:
  "\<exists>new. snd (handleSubmit srv nd today (s, log)) = log @ new
     \<and> set new \<subseteq> {saveRequest s,
                    GET (js ''/hospital'') (listParams (currentPage s) (searchTerm s))}
     \<and> (validateForm nd (formData s) \<noteq> Map.empty \<longrightarrow> new = [])
     \<and> (validateForm nd (formData s) = Map.empty \<longrightarrow> hd new = saveRequest s \<and> new \<noteq> [])"
proof (cases "validateForm nd (formData s) = Map.empty")
  case False
  then show ?thesis by (simp add: handleSubmit_invalid)
next
  case valid: True
  show ?thesis
  proof (cases "srv log (saveRequest s)")
    case None
    show ?thesis
      unfolding handleSubmit_rejected [where srv = srv and log = log, OF valid None]
      using valid by simp
  next
    case (Some r)
    show ?thesis
    proof (cases "status r = 200 \<or> status r = 201")
      case True
      show ?thesis
        unfolding handleSubmit_saved [where srv = srv and log = log, OF valid Some True]
        using valid by simp
    next
      case False
      show ?thesis
        unfolding handleSubmit_not_refetched [where srv = srv and log = log, OF valid Some False]
        using valid by simp
    qed
  qed
qed

lemma handleSubmit_u_new_requests:
  assumes "validateForm_u (formData_u u) = Inr m"
  shows "\<exists>u' new. handleSubmit_u srv (u, log) = Inr (u', log @ new)
     \<and> (m \<noteq> Map.empty \<longrightarrow> new = [] \<and> u' = u\<lparr>validation_u := m\<rparr>)
     \<and> (m = Map.empty \<longrightarrow> hd new = saveRequest_u u \<and> new \<noteq> [])"
proof (cases "m = Map.empty")
  case False
  then show ?thesis using assms by (simp add: handleSubmit_u_invalid)
next
  case True
  with assms have valid: "validateForm_u (formData_u u) = Inr Map.empty" by simp
  show ?thesis
  proof (cases "srv log (saveRequest_u u)")
    case None
    show ?thesis
      unfolding handleSubmit_u_rejected [where srv = srv and log = log, OF valid None]
      using True by simp
  next
    case (Some r)
    show ?thesis
    proof (cases "status r = 200 \<or> status r = 201")
      case t: True
      show ?thesis
        unfolding handleSubmit_u_saved [where srv = srv and log = log, OF valid Some t]
        using True by simp
    next
      case f: False
      show ?thesis
        unfolding handleSubmit_u_not_refetched [where srv = srv and log = log, OF valid Some f]
        using True by simp
    qed
  qed
qed

section \<open>Sample drafts under validation\<close>

lemma sampleDraft_fields:
  "sampleDraft ''clinic_name'' = Some (js ''City Clinic'')"
  "sampleDraft ''address'' = Some (js ''12 Lake Road'')"
  "sampleDraft ''pin_code'' = Some (js ''560001'')"
  "sampleDraft ''phone_number'' = Some []"
  "sampleDraft ''mobile_number'' = Some []"
  "sampleDraft ''email'' = Some []"
  "sampleDraft ''working_hours_from'' = Some []"
  "sampleDraft ''working_hours_to'' = Some []"
  by (simp_all add: sampleDraft_def initialFormData_def)

lemma sampleDraft_valid: "validateForm nd sampleDraft = Map.empty"
  by (simp add: validateForm_def Let_def assignIf_def sampleDraft_fields truthy_def
      test_pinCodeRe js_def isDigit_def)

lemma sample_email: "test emailRe (js ''asha@clinic.in'')"
  by code_simp

lemma sampleDraft_u_fields:
  "sampleDraft_u ''first_name'' = Some (UStr (js ''Asha''))"
  "sampleDraft_u ''last_name'' = Some (UStr (js ''Rao''))"
  "sampleDraft_u ''hospital_id'' = Some (UStr (js ''h1''))"
  "sampleDraft_u ''email_id'' = Some (UStr (js ''asha@clinic.in''))"
  "sampleDraft_u ''phone_number'' = Some (UStr [])"
  "sampleDraft_u ''mobile_number'' = Some (UStr [])"
  by (simp_all add: sampleDraft_u_def initialFormData_u_def)

lemma truthy_u_js: "truthy_u (Some (UStr (js (c # cs))))" "\<not> truthy_u (Some (UStr []))"
  by (simp_all add: truthy_u_def js_def)

lemma sampleDraft_u_valid: "validateForm_u sampleDraft_u = Inr Map.empty"
  by (simp add: validateForm_u_def Let_def assignIf_def sampleDraft_u_fields truthy_u_js
      toString_def sample_email phoneInvalid_def)

lemma sampleDraft_u_no_hospital:
  "validateForm_u (sampleDraft_u(''hospital_id'' \<mapsto> UStr []))
     = Inr [''hospital_id'' \<mapsto> ''Hospital is required'']"
  by (simp add: validateForm_u_def Let_def assignIf_def sampleDraft_u_fields truthy_u_js
      toString_def sample_email phoneInvalid_def)

lemma lateDraft_fields:
  "lateDraft ''working_hours_from'' = Some (renderTime 9 0)"
  "lateDraft ''working_hours_to'' = Some (renderTime 8 0)"
  by (simp_all add: lateDraft_def renderTime_0900 renderTime_0800)

lemma lateDraft_rejected:
  "validateForm (isoLocalDate 0) lateDraft ''working_hours_to''
     = Some ''Working Hours To must be later than Working Hours From''"
proof -
  have "renderTime 9 0 \<noteq> []" "renderTime 8 0 \<noteq> []"
    by (simp_all add: renderTime_def)
  moreover have "isoLocalDate 0 (onDay (renderTime 9 0)) = Some (0 + (int 9 * 60 + int 0) * 60000)"
    "isoLocalDate 0 (onDay (renderTime 8 0)) = Some (0 + (int 8 * 60 + int 0) * 60000)"
    by (rule isoLocalDate_renderTime; simp)+
  ultimately show ?thesis
    using hours_rule [where fd = lateDraft and newDate = "isoLocalDate 0",
        OF lateDraft_fields(1) _ lateDraft_fields(2)]
    by simp
qed

lemma submit_late:
  "handleSubmit offline (isoLocalDate 0) today (editingLate, [])
     = (editingLate\<lparr>validation := validateForm (isoLocalDate 0) lateDraft\<rparr>, [])"
proof -
  have "formData editingLate = lateDraft"
    by (simp add: editingLate_def)
  moreover have "validateForm (isoLocalDate 0) lateDraft \<noteq> Map.empty"
    using lateDraft_rejected by (auto simp: fun_eq_iff)
  ultimately show ?thesis
    using handleSubmit_invalid [of "isoLocalDate 0" editingLate offline today "[]"] by simp
qed

text \<open>
  C6. After a submit rejected for its working hours, picking a new "from" time changes
  the validation entry of another field, \<open>working_hours_to\<close>.
\<close>

theorem from_picker_changes_other_entry:
  "validation (fst (handleSubmit offline (isoLocalDate 0) (js ''2024-05-17'') (editingLate, [])))
     ''working_hours_to''
     = Some ''Working Hours To must be later than Working Hours From''
   \<and> validation (onChangeWorkingHoursFrom [js ''07:00'']
        (fst (handleSubmit offline (isoLocalDate 0) (js ''2024-05-17'') (editingLate, []))))
     ''working_hours_to''
     = Some []"
  by (simp add: submit_late lateDraft_rejected onChangeWorkingHoursFrom_eq truthy_def)

text \<open>
  The select handler of the user screen, for comparison with \<open>handleInputChange\<close>:
  it leaves the whole validation mapping as it is.
\<close>

lemma select_keeps_validation:
  "validation_u (handleSelectChange name value u) = validation_u u"
  by (simp add: handleSelectChange_def)

text \<open>C6, witness: edits after the submit rejected for its working hours.\<close>

theorem field_mutation_witness:
  "validation (handleInputChange ''working_hours_to'' (js ''18:00'')
       (editingLate\<lparr>validation := validateForm (isoLocalDate 0) lateDraft\<rparr>))
     ''working_hours_to'' = Some []
   \<and> formData (handleInputChange ''working_hours_to'' (js ''18:00'')
       (editingLate\<lparr>validation := validateForm (isoLocalDate 0) lateDraft\<rparr>))
     ''working_hours_from'' = Some (js ''09:00'')
   \<and> validation (handleInputChange ''clinic_name'' (js ''New Name'')
       (editingLate\<lparr>validation := validateForm (isoLocalDate 0) lateDraft\<rparr>))
     ''working_hours_to'' = Some ''Working Hours To must be later than Working Hours From''
   \<and> formData_u (handleSelectChange ''hospital_id'' (js ''h1'') initialState_u) ''first_name''
     = Some (UStr [])"
proof -
  let ?s = "editingLate\<lparr>validation := validateForm (isoLocalDate 0) lateDraft\<rparr>"
  note m1 = field_mutation [of "''working_hours_to''" "js ''18:00''" ?s,
      THEN conjunct2, THEN conjunct2, THEN conjunct1, rule_format, of "''working_hours_from''"]
  note m2 = field_mutation [of "''clinic_name''" "js ''New Name''" ?s,
      THEN conjunct2, THEN conjunct2, THEN conjunct1, rule_format, of "''working_hours_to''"]
  note m3 = field_mutation [of "''hospital_id''" "js ''h1''" _ initialState_u,
      THEN conjunct2, THEN conjunct2, THEN conjunct2, THEN conjunct2, THEN conjunct2,
      THEN conjunct2, THEN conjunct2, THEN conjunct2, THEN conjunct2, THEN conjunct2,
      THEN conjunct1, rule_format, of "''first_name''"]
  have a: "validation (handleInputChange ''working_hours_to'' (js ''18:00'') ?s)
             ''working_hours_to'' = Some []"
    by (simp add: handleInputChange_eq lateDraft_rejected truthy_def)
  have b: "formData (handleInputChange ''working_hours_to'' (js ''18:00'') ?s)
             ''working_hours_from'' = formData ?s ''working_hours_from''"
    by (rule m1 [THEN conjunct2]) simp
  have c: "validation (handleInputChange ''clinic_name'' (js ''New Name'') ?s)
             ''working_hours_to'' = validation ?s ''working_hours_to''"
    by (rule m2 [THEN conjunct1]) simp
  have d: "formData_u (handleSelectChange ''hospital_id'' (js ''h1'') initialState_u)
             ''first_name'' = formData_u initialState_u ''first_name''"
    by (rule m3 [THEN conjunct2, THEN conjunct1]) simp
  have e: "formData ?s ''working_hours_from'' = Some (js ''09:00'')"
    by (simp add: editingLate_def lateDraft_def)
  have f: "validation ?s ''working_hours_to''
       = Some ''Working Hours To must be later than Working Hours From''"
    by (simp add: lateDraft_rejected)
  have g: "formData_u initialState_u ''first_name'' = Some (UStr [])"
    by (simp add: initialState_u_def initialFormData_u_def)
  show ?thesis
    unfolding a b c d e f g by simp
qed

section \<open>Closing the modal\<close>

lemma initialFormData_values:
  "initialFormData today ''registration_date'' = Some today"
  "k \<in> set payloadKeys \<or> k = ''registration_id'' \<Longrightarrow> initialFormData today k = Some []"
  by (auto simp: initialFormData_def payloadKeys_def)

text \<open>
  C7. Closing the modal, by cancel or at the end of a submit whose save request was
  answered, restores the draft to the initial draft (every field empty, the
  registration date today's), clears the editing reference and empties the validation
  mapping; the create form opened next shows that draft and no error. On both screens.
\<close>

theorem close_resets_form:
  "formData (openCreate (handleCloseModal today s)) = initialFormData today
   \<and> validation (openCreate (handleCloseModal today s)) = Map.empty
   \<and> editingHospital (openCreate (handleCloseModal today s)) = None
   \<and> isModalOpen (handleCloseModal today s) = False
   \<and> initialFormData today ''registration_date'' = Some today
   \<and> (\<forall>k \<in> set payloadKeys \<union> {''registration_id''}. initialFormData today k = Some [])
   \<and> (validateForm newDate (formData s) = Map.empty \<and> srv log (saveRequest s) \<noteq> None \<longrightarrow>
        formData (openCreate (fst (handleSubmit srv newDate today (s, log))))
          = initialFormData today
        \<and> validation (openCreate (fst (handleSubmit srv newDate today (s, log)))) = Map.empty
        \<and> editingHospital (openCreate (fst (handleSubmit srv newDate today (s, log)))) = None
        \<and> isModalOpen (fst (handleSubmit srv newDate today (s, log))) = False)
   \<and> formData_u (openCreate_u (handleCloseModal_u u)) = initialFormData_u
   \<and> validation_u (openCreate_u (handleCloseModal_u u)) = Map.empty
   \<and> editingUser (openCreate_u (handleCloseModal_u u)) = None
   \<and> isModalOpen_u (handleCloseModal_u u) = False
   \<and> (validateForm_u (formData_u u) = Inr Map.empty \<and> srv log (saveRequest_u u) \<noteq> None \<longrightarrow>
        (\<exists>u' log'. handleSubmit_u srv (u, log) = Inr (u', log')
           \<and> formData_u (openCreate_u u') = initialFormData_u
           \<and> validation_u (openCreate_u u') = Map.empty
           \<and> editingUser (openCreate_u u') = None
           \<and> isModalOpen_u u' = False))"
proof -
  have cancel: "formData (openCreate (handleCloseModal today s)) = initialFormData today"
    "validation (openCreate (handleCloseModal today s)) = Map.empty"
    "editingHospital (openCreate (handleCloseModal today s)) = None"
    "isModalOpen (handleCloseModal today s) = False"
    by (simp_all add: openCreate_def handleCloseModal_def)
  have init: "\<forall>k \<in> set payloadKeys \<union> {''registration_id''}. initialFormData today k = Some []"
    using initialFormData_values(2) [of _ today] by blast
  have submit: "formData (openCreate (fst (handleSubmit srv newDate today (s, log))))
          = initialFormData today
        \<and> validation (openCreate (fst (handleSubmit srv newDate today (s, log)))) = Map.empty
        \<and> editingHospital (openCreate (fst (handleSubmit srv newDate today (s, log)))) = None
        \<and> isModalOpen (fst (handleSubmit srv newDate today (s, log))) = False"
    if "validateForm newDate (formData s) = Map.empty" "srv log (saveRequest s) \<noteq> None"
  proof -
    from that(2) obtain r where r: "srv log (saveRequest s) = Some r" by blast
    from handleSubmit_success_closes [where srv = srv and log = log, OF that(1) r, of today]
    show ?thesis by (simp add: openCreate_def)
  qed
  have cancel_u: "formData_u (openCreate_u (handleCloseModal_u u)) = initialFormData_u"
    "validation_u (openCreate_u (handleCloseModal_u u)) = Map.empty"
    "editingUser (openCreate_u (handleCloseModal_u u)) = None"
    "isModalOpen_u (handleCloseModal_u u) = False"
    by (simp_all add: openCreate_u_def handleCloseModal_u_def)
  have submit_u: "\<exists>u' log'. handleSubmit_u srv (u, log) = Inr (u', log')
           \<and> formData_u (openCreate_u u') = initialFormData_u
           \<and> validation_u (openCreate_u u') = Map.empty
           \<and> editingUser (openCreate_u u') = None
           \<and> isModalOpen_u u' = False"
    if "validateForm_u (formData_u u) = Inr Map.empty" "srv log (saveRequest_u u) \<noteq> None"
  proof -
    from that(2) obtain r where r: "srv log (saveRequest_u u) = Some r" by blast
    from handleSubmit_u_success_closes [where srv = srv and log = log, OF that(1) r]
    show ?thesis by (auto simp: openCreate_u_def)
  qed
  show ?thesis
    using cancel initialFormData_values(1) [of today] init submit cancel_u submit_u
    by (intro conjI impI) (simp_all only: simp_thms)
qed

section \<open>Submitting an invalid draft\<close>

text \<open>
  C8. When validation returns a non-empty mapping, submit issues no request and changes
  nothing but the validation mapping: list, editing reference, loading and error flags
  are as before. When it returns the empty mapping, the first request issued is the
  create or update request carrying the draft. On both screens; on the user screen an
  exception of validation also ends the submit without a request.
\<close>

theorem invalid_submit_blocked:
  "(validateForm newDate (formData s) \<noteq> Map.empty \<longrightarrow>
      handleSubmit srv newDate today (s, log)
        = (s\<lparr>validation := validateForm newDate (formData s)\<rparr>, log))
   \<and> (validateForm newDate (formData s) = Map.empty \<longrightarrow>
        (\<exists>rest. snd (handleSubmit srv newDate today (s, log)) = log @ saveRequest s # rest)
        \<and> payloadOf (saveRequest s) = Some (hospitalData (formData s)))
   \<and> (\<forall>m. validateForm_u (formData_u u) = Inr m \<and> m \<noteq> Map.empty \<longrightarrow>
        handleSubmit_u srv (u, log) = Inr (u\<lparr>validation_u := m\<rparr>, log))
   \<and> (validateForm_u (formData_u u) = Inr Map.empty \<longrightarrow>
        (\<exists>u' rest. handleSubmit_u srv (u, log) = Inr (u', log @ saveRequest_u u # rest))
        \<and> payloadOf (saveRequest_u u) = Some (map_option asJs \<circ> formData_u u))
   \<and> (\<forall>e. validateForm_u (formData_u u) = Inl e \<longrightarrow> handleSubmit_u srv (u, log) = Inl e)"
proof -
  have h1: "handleSubmit srv newDate today (s, log)
        = (s\<lparr>validation := validateForm newDate (formData s)\<rparr>, log)"
    if "validateForm newDate (formData s) \<noteq> Map.empty"
    using that by (rule handleSubmit_invalid)
  have h2: "\<exists>rest. snd (handleSubmit srv newDate today (s, log)) = log @ saveRequest s # rest"
    if "validateForm newDate (formData s) = Map.empty"
  proof -
    from handleSubmit_new_requests [of srv newDate today s log] that
    obtain new where "snd (handleSubmit srv newDate today (s, log)) = log @ new"
      "hd new = saveRequest s" "new \<noteq> []" by blast
    then show ?thesis by (cases new) auto
  qed
  have h3: "payloadOf (saveRequest s) = Some (hospitalData (formData s))"
    by (simp add: payloadOf_def saveRequest_def split: option.split)
  have u1: "handleSubmit_u srv (u, log) = Inr (u\<lparr>validation_u := m\<rparr>, log)"
    if "validateForm_u (formData_u u) = Inr m" "m \<noteq> Map.empty" for m
    using that by (rule handleSubmit_u_invalid)
  have u2: "\<exists>u' rest. handleSubmit_u srv (u, log) = Inr (u', log @ saveRequest_u u # rest)"
    if "validateForm_u (formData_u u) = Inr Map.empty"
  proof -
    from handleSubmit_u_new_requests [OF that, of srv log]
    obtain u' new where "handleSubmit_u srv (u, log) = Inr (u', log @ new)"
      "hd new = saveRequest_u u" "new \<noteq> []" by blast
    then show ?thesis by (cases new) auto
  qed
  have u3: "payloadOf (saveRequest_u u) = Some (map_option asJs \<circ> formData_u u)"
    by (simp add: payloadOf_def saveRequest_u_def split: option.split)
  have u4: "handleSubmit_u srv (u, log) = Inl e" if "validateForm_u (formData_u u) = Inl e" for e
    using that by (rule handleSubmit_u_TypeError)
  from h1 h2 h3 u1 u2 u3 u4 show ?thesis by blast
qed

lemma creating_simps:
  "formData creating = sampleDraft" "editingHospital creating = None"
  "formData_u creating_u = sampleDraft_u" "editingUser creating_u = None"
  by (simp_all add: creating_def creating_u_def initialState_def initialState_u_def)

lemma accepting_Some: "accepting log rq \<noteq> None"
  by (simp add: accepting_def)

text \<open>C7, witness: a valid draft of each screen, saved against the accepting API.\<close>

theorem close_resets_form_witness:
  "validateForm (isoLocalDate 0) (formData creating) = Map.empty
   \<and> accepting [] (saveRequest creating) \<noteq> None
   \<and> formData (openCreate (fst (handleSubmit accepting (isoLocalDate 0) (js ''2024-05-18'')
        (creating, [])))) = initialFormData (js ''2024-05-18'')
   \<and> validation (openCreate (fst (handleSubmit accepting (isoLocalDate 0) (js ''2024-05-18'')
        (creating, [])))) = Map.empty
   \<and> initialFormData (js ''2024-05-18'') ''clinic_name'' = Some []
   \<and> validateForm_u (formData_u creating_u) = Inr Map.empty
   \<and> accepting [] (saveRequest_u creating_u) \<noteq> None
   \<and> (\<exists>u' log'. handleSubmit_u accepting (creating_u, []) = Inr (u', log')
          \<and> formData_u (openCreate_u u') = initialFormData_u
          \<and> validation_u (openCreate_u u') = Map.empty)"
proof -
  have v: "validateForm (isoLocalDate 0) (formData creating) = Map.empty"
    by (simp add: creating_simps sampleDraft_valid)
  have vu: "validateForm_u (formData_u creating_u) = Inr Map.empty"
    by (simp add: creating_simps sampleDraft_u_valid)
  note a = accepting_Some [of "[]" "saveRequest creating"]
  note au = accepting_Some [of "[]" "saveRequest_u creating_u"]
  note c = close_resets_form [where s = creating and today = "js ''2024-05-18''"
      and newDate = "isoLocalDate 0" and srv = accepting and log = "[]" and u = creating_u]
  have k: "''clinic_name'' \<in> set payloadKeys \<union> {''registration_id''}"
    by (simp add: payloadKeys_def)
  from c v a vu au k show ?thesis
    by blast
qed

text \<open>
  C8, witness: the draft with late working hours and a user draft without hospital are
  blocked; the valid drafts are sent; a user draft whose phone number is a boolean
  ends the submit with the exception.
\<close>

theorem invalid_submit_blocked_witness:
  "validateForm (isoLocalDate 0) (formData editingLate) \<noteq> Map.empty
   \<and> handleSubmit accepting (isoLocalDate 0) (js ''2024-05-18'') (editingLate, [])
       = (editingLate\<lparr>validation := validateForm (isoLocalDate 0) (formData editingLate)\<rparr>, [])
   \<and> validateForm (isoLocalDate 0) (formData creating) = Map.empty
   \<and> (\<exists>rest. snd (handleSubmit accepting (isoLocalDate 0) (js ''2024-05-18'') (creating, []))
               = [] @ saveRequest creating # rest)
   \<and> saveRequest creating = POST (js ''/hospital'') (hospitalData sampleDraft)
   \<and> validateForm_u (formData_u (creating_u\<lparr>formData_u := sampleDraft_u(''hospital_id'' \<mapsto> UStr [])\<rparr>))
       = Inr [''hospital_id'' \<mapsto> ''Hospital is required'']
   \<and> [''hospital_id'' \<mapsto> ''Hospital is required''] \<noteq> Map.empty
   \<and> handleSubmit_u accepting
        (creating_u\<lparr>formData_u := sampleDraft_u(''hospital_id'' \<mapsto> UStr [])\<rparr>, [])
       = Inr (creating_u\<lparr>formData_u := sampleDraft_u(''hospital_id'' \<mapsto> UStr []),
                         validation_u := [''hospital_id'' \<mapsto> ''Hospital is required'']\<rparr>, [])
   \<and> validateForm_u (formData_u creating_u) = Inr Map.empty
   \<and> (\<exists>u' rest. handleSubmit_u accepting (creating_u, [])
                  = Inr (u', [] @ saveRequest_u creating_u # rest))
   \<and> validateForm_u
        (formData_u (creating_u\<lparr>formData_u := sampleDraft_u(''phone_number'' \<mapsto> UBool True)\<rparr>))
       = Inl TypeError
   \<and> handleSubmit_u accepting
        (creating_u\<lparr>formData_u := sampleDraft_u(''phone_number'' \<mapsto> UBool True)\<rparr>, [])
       = Inl TypeError"
proof -
  let ?t = "creating_u\<lparr>formData_u := sampleDraft_u(''phone_number'' \<mapsto> UBool True)\<rparr>"
  have ty: "validateForm_u (formData_u ?t) = Inl TypeError"
    by (rule validateForm_u_TypeError) (simp add: truthy_u_def isString_def)
  note b3 = invalid_submit_blocked [where s = creating and newDate = "isoLocalDate 0"
      and srv = accepting and today = "js ''2024-05-18''" and log = "[]" and u = ?t]
  have r5: "handleSubmit_u accepting (?t, []) = Inl TypeError"
    using b3 [THEN conjunct2, THEN conjunct2, THEN conjunct2, THEN conjunct2] ty by blast
  have late: "validateForm (isoLocalDate 0) (formData editingLate) \<noteq> Map.empty"
    using lateDraft_rejected by (auto simp: editingLate_def fun_eq_iff)
  have v: "validateForm (isoLocalDate 0) (formData creating) = Map.empty"
    by (simp add: creating_simps sampleDraft_valid)
  have rq: "saveRequest creating = POST (js ''/hospital'') (hospitalData sampleDraft)"
    by (simp add: saveRequest_def creating_simps)
  let ?u = "creating_u\<lparr>formData_u := sampleDraft_u(''hospital_id'' \<mapsto> UStr [])\<rparr>"
  have bad: "validateForm_u (formData_u ?u) = Inr [''hospital_id'' \<mapsto> ''Hospital is required'']"
    by (simp add: sampleDraft_u_no_hospital)
  have ne: "[''hospital_id'' \<mapsto> ''Hospital is required''] \<noteq> Map.empty"
    by simp
  have vu: "validateForm_u (formData_u creating_u) = Inr Map.empty"
    by (simp add: creating_simps sampleDraft_u_valid)
  note b1 = invalid_submit_blocked [where s = editingLate and newDate = "isoLocalDate 0"
      and srv = accepting and today = "js ''2024-05-18''" and log = "[]" and u = ?u]
  note b2 = invalid_submit_blocked [where s = creating and newDate = "isoLocalDate 0"
      and srv = accepting and today = "js ''2024-05-18''" and log = "[]" and u = creating_u]
  have r1: "handleSubmit accepting (isoLocalDate 0) (js ''2024-05-18'') (editingLate, [])
       = (editingLate\<lparr>validation := validateForm (isoLocalDate 0) (formData editingLate)\<rparr>, [])"
    using b1 [THEN conjunct1] late by blast
  have r2: "\<exists>rest. snd (handleSubmit accepting (isoLocalDate 0) (js ''2024-05-18'') (creating, []))
               = [] @ saveRequest creating # rest"
    using b2 [THEN conjunct2, THEN conjunct1] v by blast
  have r3: "handleSubmit_u accepting (?u, [])
       = Inr (?u\<lparr>validation_u := [''hospital_id'' \<mapsto> ''Hospital is required'']\<rparr>, [])"
    using b1 [THEN conjunct2, THEN conjunct2, THEN conjunct1] bad ne by blast
  have r4: "\<exists>u' rest. handleSubmit_u accepting (creating_u, [])
                  = Inr (u', [] @ saveRequest_u creating_u # rest)"
    using b2 [THEN conjunct2, THEN conjunct2, THEN conjunct2, THEN conjunct1] vu by blast
  from late r1 v r2 rq bad ne r3 vu r4 ty r5 show ?thesis by simp
qed

section \<open>The registration id\<close>

lemma hospitalData_no_registration_id: "''registration_id'' \<notin> dom (hospitalData fd)"
  by (simp add: hospitalData_def payloadKeys_def dom_def)

lemma payloadOf_list_fetch: "payloadOf (GET url params) = None"
  by (simp add: payloadOf_def)

lemma payloadOf_saveRequest: "payloadOf (saveRequest s) = Some (hospitalData (formData s))"
  by (simp add: payloadOf_def saveRequest_def split: option.split)

lemma handleEdit_registration_id:
  "formData (handleEdit hospital s) ''registration_id'' = Some []"
  by (simp add: handleEdit_def)

text \<open>
  C10. On the paginated hospital screen the body of \<open>POST /hospital\<close> and of
  \<open>PUT /hospital/{id}\<close> has no \<open>registration_id\<close> key, for every draft and every
  request a submit issues, and opening the edit form sets the draft's
  \<open>registration_id\<close> to the empty string whatever the selected hospital stores.
\<close>

theorem registration_id_never_written:
  "''registration_id'' \<notin> dom (hospitalData fd)
   \<and> (editingHospital s = None \<longrightarrow>
        saveRequest s = POST (js ''/hospital'') (hospitalData (formData s)))
   \<and> (\<forall>h. editingHospital s = Some h \<longrightarrow>
        saveRequest s = PUT (js ''/hospital/'' @ template (h ''id'')) (hospitalData (formData s)))
   \<and> (\<forall>rq \<in> set (drop (length log) (snd (handleSubmit srv newDate today (s, log)))).
        \<forall>body. payloadOf rq = Some body \<longrightarrow> ''registration_id'' \<notin> dom body)
   \<and> formData (handleEdit hospital s) ''registration_id'' = Some []
   \<and> editingHospital (handleEdit hospital s) = Some hospital"
proof -
  have rq: "editingHospital s = None \<longrightarrow>
        saveRequest s = POST (js ''/hospital'') (hospitalData (formData s))"
    "\<forall>h. editingHospital s = Some h \<longrightarrow>
        saveRequest s = PUT (js ''/hospital/'' @ template (h ''id'')) (hospitalData (formData s))"
    by (simp_all add: saveRequest_def)
  have sent: "\<forall>rq \<in> set (drop (length log) (snd (handleSubmit srv newDate today (s, log)))).
        \<forall>body. payloadOf rq = Some body \<longrightarrow> ''registration_id'' \<notin> dom body"
  proof -
    from handleSubmit_new_requests [of srv newDate today s log]
    obtain new where new: "snd (handleSubmit srv newDate today (s, log)) = log @ new"
      "set new \<subseteq> {saveRequest s,
                    GET (js ''/hospital'') (listParams (currentPage s) (searchTerm s))}"
      by blast
    have "''registration_id'' \<notin> dom body" if "rq \<in> set new" "payloadOf rq = Some body" for rq body
    proof -
      from that(1) new(2)
      consider "rq = saveRequest s"
        | "rq = GET (js ''/hospital'') (listParams (currentPage s) (searchTerm s))"
        by blast
      then show ?thesis
      proof cases
        case 1
        with that(2) have "body = hospitalData (formData s)"
          by (simp add: payloadOf_saveRequest)
        then show ?thesis by (simp only: hospitalData_no_registration_id not_False_eq_True)
      next
        case 2
        with that(2) show ?thesis by (simp add: payloadOf_list_fetch)
      qed
    qed
    then show ?thesis unfolding new(1) by simp
  qed
  have ed: "editingHospital (handleEdit hospital s) = Some hospital"
    by (simp add: handleEdit_def)
  from hospitalData_no_registration_id [of fd] rq sent handleEdit_registration_id [of hospital s] ed
  show ?thesis by (intro conjI)
qed

lemma edited_fields:
  "formData (handleEdit sampleHospital s) ''clinic_name'' = Some (js ''City Clinic'')"
  "formData (handleEdit sampleHospital s) ''address'' = Some (js ''12 Lake Road'')"
  "formData (handleEdit sampleHospital s) ''pin_code'' = Some (js ''560001'')"
  "formData (handleEdit sampleHospital s) ''phone_number'' = Some []"
  "formData (handleEdit sampleHospital s) ''mobile_number'' = Some []"
  "formData (handleEdit sampleHospital s) ''email'' = Some []"
  "formData (handleEdit sampleHospital s) ''working_hours_from'' = Some []"
  "formData (handleEdit sampleHospital s) ''working_hours_to'' = Some []"
  by (simp_all add: handleEdit_def editKeys_def sampleHospital_def)

lemma edited_valid: "validateForm nd (formData (handleEdit sampleHospital s)) = Map.empty"
  by (simp add: validateForm_def Let_def assignIf_def edited_fields truthy_def
      test_pinCodeRe js_def isDigit_def)

text \<open>
  C10, witness: editing and saving the stored hospital, whose registration id is REG-7,
  and creating one from the sample draft.
\<close>

theorem registration_id_never_written_witness:
  "sampleHospital ''registration_id'' = Some (js ''REG-7'')
   \<and> formData (handleEdit sampleHospital (initialState (js ''2024-05-17''))) ''registration_id''
       = Some []
   \<and> editingHospital (handleEdit sampleHospital (initialState (js ''2024-05-17'')))
       = Some sampleHospital
   \<and> saveRequest (handleEdit sampleHospital (initialState (js ''2024-05-17'')))
       = PUT (js ''/hospital/h1'')
           (hospitalData (formData (handleEdit sampleHospital (initialState (js ''2024-05-17'')))))
   \<and> snd (handleSubmit accepting (isoLocalDate 0) (js ''2024-05-17'')
            (handleEdit sampleHospital (initialState (js ''2024-05-17'')), []))
       = [saveRequest (handleEdit sampleHospital (initialState (js ''2024-05-17''))),
          GET (js ''/hospital'') (listParams 1 [])]
   \<and> payloadOf (saveRequest (handleEdit sampleHospital (initialState (js ''2024-05-17''))))
       = Some (hospitalData (formData (handleEdit sampleHospital (initialState (js ''2024-05-17'')))))
   \<and> ''registration_id''
       \<notin> dom (hospitalData (formData (handleEdit sampleHospital (initialState (js ''2024-05-17'')))))
   \<and> editingHospital creating = None
   \<and> saveRequest creating = POST (js ''/hospital'') (hospitalData (formData creating))"
proof -
  let ?s = "handleEdit sampleHospital (initialState (js ''2024-05-17''))"
  note c = registration_id_never_written [where s = creating and hospital = sampleHospital
      and fd = "formData creating" and srv = accepting and newDate = "isoLocalDate 0"
      and today = "js ''2024-05-17''" and log = "[]"]
  have n: "editingHospital creating = None"
    by (simp add: creating_simps)
  have post: "saveRequest creating = POST (js ''/hospital'') (hospitalData (formData creating))"
    using c [THEN conjunct2, THEN conjunct1] n by blast
  note w = registration_id_never_written [where s = ?s and hospital = sampleHospital
      and fd = "formData ?s" and srv = accepting and newDate = "isoLocalDate 0"
      and today = "js ''2024-05-17''" and log = "[]"]
  note w0 = registration_id_never_written [where s = "initialState (js ''2024-05-17'')"
      and hospital = sampleHospital and fd = "formData ?s" and srv = accepting
      and newDate = "isoLocalDate 0" and today = "js ''2024-05-17''" and log = "[]"]
  have reg: "sampleHospital ''registration_id'' = Some (js ''REG-7'')"
    by (simp add: sampleHospital_def)
  have id: "js ''/hospital/'' @ template (sampleHospital ''id'') = js ''/hospital/h1''"
    by (simp add: sampleHospital_def template_def js_def)
  have ed: "editingHospital ?s = Some sampleHospital"
    by (simp add: handleEdit_def)
  have put: "saveRequest ?s = PUT (js ''/hospital/h1'') (hospitalData (formData ?s))"
    using w [THEN conjunct2, THEN conjunct2, THEN conjunct1, rule_format, OF ed]
    by (simp only: id)
  have acc: "accepting [] (saveRequest ?s)
       = Some \<lparr>status = 200, dataHospitals = Some [sampleHospital],
               dataUsers = Some [sampleDraft_u], dataTotalCount = Some 1, dataPage = Some 1\<rparr>"
    by (simp add: accepting_def)
  have page: "currentPage ?s = 1" "searchTerm ?s = []"
    by (simp_all add: handleEdit_def initialState_def)
  have sent: "snd (handleSubmit accepting (isoLocalDate 0) (js ''2024-05-17'') (?s, []))
       = [saveRequest ?s, GET (js ''/hospital'') (listParams 1 [])]"
    unfolding handleSubmit_saved [where srv = accepting and log = "[]", OF edited_valid acc, simplified]
    by (simp add: page)
  from reg w0 [THEN conjunct2, THEN conjunct2, THEN conjunct2, THEN conjunct2, THEN conjunct1]
    ed put sent payloadOf_saveRequest [of ?s] w [THEN conjunct1] n post
  show ?thesis by (intro conjI)
qed

section \<open>Arriving answers\<close>

lemma run_append: "run srv (es @ es') rt = run srv es' (run srv es rt)"
  by (induction es arbitrary: rt) simp_all

lemma run_u_append: "run_u srv (es @ es') rt = run_u srv es' (run_u srv es rt)"
  by (induction es arbitrary: rt) simp_all

lemma arrive_answer:
  assumes "i < length (inflight rt)" and "srv (sent rt) (snd (inflight rt ! i)) = Some r"
  shows "screen (arrive srv i rt) =
           (screen rt)\<lparr>hospitals := orEmpty (dataHospitals r),
                     totalCount := orNum (dataTotalCount r) 0,
                     currentPage := orNum (dataPage r) (fst (inflight rt ! i)),
                     isLoading := False\<rparr>"
    and "inflight (arrive srv i rt) = take i (inflight rt) @ drop (Suc i) (inflight rt)"
    and "sent (arrive srv i rt) = sent rt"
    and "timer (arrive srv i rt) = timer rt"
  using assms by (simp_all add: arrive_def fetchDone_def case_prod_beta)

lemma arrive_u_answer:
  assumes "i < length (inflight_u rt)" and "srv (sent_u rt) (snd (inflight_u rt ! i)) = Some r"
  shows "screen_u (arrive_u srv i rt) =
           (screen_u rt)\<lparr>users := orEmpty (dataUsers r),
                       totalCount_u := orNum (dataTotalCount r) 0,
                       currentPage_u := orNum (dataPage r) (fst (inflight_u rt ! i)),
                       isLoading_u := False\<rparr>"
    and "inflight_u (arrive_u srv i rt) = take i (inflight_u rt) @ drop (Suc i) (inflight_u rt)"
    and "sent_u (arrive_u srv i rt) = sent_u rt"
    and "timer_u (arrive_u srv i rt) = timer_u rt"
  using assms by (simp_all add: arrive_u_def fetchDone_u_def case_prod_beta)

text \<open>
  C1 (amended). The controller does not discard stale answers: after any history, when
  the answer to any list fetch still in flight arrives, whether or not a newer search
  has been issued since, it replaces the displayed records, the total count and the
  page, and leaves the search term as it is. So the displayed records are those of the
  answer that arrived last, whichever request it answers. On both screens.
\<close>

theorem last_answer_wins:
  "(i < length (inflight (run srv es rt))
      \<and> srv (sent (run srv es rt)) (snd (inflight (run srv es rt) ! i)) = Some r \<longrightarrow>
      hospitals (screen (run srv (es @ [Arrive i]) rt)) = orEmpty (dataHospitals r)
      \<and> totalCount (screen (run srv (es @ [Arrive i]) rt)) = orNum (dataTotalCount r) 0
      \<and> currentPage (screen (run srv (es @ [Arrive i]) rt))
          = orNum (dataPage r) (fst (inflight (run srv es rt) ! i))
      \<and> searchTerm (screen (run srv (es @ [Arrive i]) rt)) = searchTerm (screen (run srv es rt))
      \<and> sent (run srv (es @ [Arrive i]) rt) = sent (run srv es rt))
   \<and> (j < length (inflight_u (run_u srv es_u rt_u))
      \<and> srv (sent_u (run_u srv es_u rt_u)) (snd (inflight_u (run_u srv es_u rt_u) ! j)) = Some r
      \<longrightarrow>
      users (screen_u (run_u srv (es_u @ [Arrive_u j]) rt_u)) = orEmpty (dataUsers r)
      \<and> totalCount_u (screen_u (run_u srv (es_u @ [Arrive_u j]) rt_u)) = orNum (dataTotalCount r) 0
      \<and> currentPage_u (screen_u (run_u srv (es_u @ [Arrive_u j]) rt_u))
          = orNum (dataPage r) (fst (inflight_u (run_u srv es_u rt_u) ! j))
      \<and> searchTerm_u (screen_u (run_u srv (es_u @ [Arrive_u j]) rt_u))
          = searchTerm_u (screen_u (run_u srv es_u rt_u))
      \<and> sent_u (run_u srv (es_u @ [Arrive_u j]) rt_u) = sent_u (run_u srv es_u rt_u))"
proof -
  have h: "hospitals (screen (run srv (es @ [Arrive i]) rt)) = orEmpty (dataHospitals r)
      \<and> totalCount (screen (run srv (es @ [Arrive i]) rt)) = orNum (dataTotalCount r) 0
      \<and> currentPage (screen (run srv (es @ [Arrive i]) rt))
          = orNum (dataPage r) (fst (inflight (run srv es rt) ! i))
      \<and> searchTerm (screen (run srv (es @ [Arrive i]) rt)) = searchTerm (screen (run srv es rt))
      \<and> sent (run srv (es @ [Arrive i]) rt) = sent (run srv es rt)"
    if "i < length (inflight (run srv es rt))"
      "srv (sent (run srv es rt)) (snd (inflight (run srv es rt) ! i)) = Some r"
    by (simp add: run_append arrive_answer [where srv = srv, OF that])
  have u: "users (screen_u (run_u srv (es_u @ [Arrive_u j]) rt_u)) = orEmpty (dataUsers r)
      \<and> totalCount_u (screen_u (run_u srv (es_u @ [Arrive_u j]) rt_u)) = orNum (dataTotalCount r) 0
      \<and> currentPage_u (screen_u (run_u srv (es_u @ [Arrive_u j]) rt_u))
          = orNum (dataPage r) (fst (inflight_u (run_u srv es_u rt_u) ! j))
      \<and> searchTerm_u (screen_u (run_u srv (es_u @ [Arrive_u j]) rt_u))
          = searchTerm_u (screen_u (run_u srv es_u rt_u))
      \<and> sent_u (run_u srv (es_u @ [Arrive_u j]) rt_u) = sent_u (run_u srv es_u rt_u)"
    if "j < length (inflight_u (run_u srv es_u rt_u))"
      "srv (sent_u (run_u srv es_u rt_u)) (snd (inflight_u (run_u srv es_u rt_u) ! j)) = Some r"
    by (simp add: run_u_append arrive_u_answer [where srv = srv, OF that])
  from h u show ?thesis by blast
qed

section \<open>A session in which an answer is overtaken\<close>

lemma trim_a: "trim (js ''a'') = js ''a''" "trim (js ''ab'') = js ''ab''" "trim [] = []"
  by (simp_all add: trim_def js_def isSpace_def)

lemma searched_listParams:
  "searched (listParams page term) = trim term"
  by (simp add: searched_def listParams_def orUndefined_def)

lemma directory_list:
  "directory log (GET url (listParams page term)) =
     Some \<lparr>status = 200, dataHospitals = Some [named (trim term)], dataUsers = None,
           dataTotalCount = Some 1, dataPage = Some 1\<rparr>"
  by (simp add: directory_def searched_listParams)

lemma two_terms: "js ''a'' \<noteq> []" "js ''ab'' \<noteq> js ''a''" "js ''ab'' \<noteq> []"
  by (simp_all add: js_def)

lemma overtaken_before:
  "run directory (butlast overtaken) (mount today 0) =
     \<lparr>screen = (initialState today)\<lparr>hospitals := [named (js ''ab'')], searchTerm := js ''ab'',
                 totalCount := 1, currentPage := 1, isLoading := False\<rparr>,
      timer = None,
      inflight = [(1, GET (js ''/hospital'') (listParams 1 (js ''a'')))],
      sent = [GET (js ''/hospital'') (listParams 1 []),
              GET (js ''/hospital'') (listParams 1 (js ''a'')),
              GET (js ''/hospital'') (listParams 1 (js ''ab''))]\<rparr>"
  by (simp add: overtaken_def mount_def tick_def typeSearch_def arrive_def fetchStart_def
      fetchDone_def initialState_def directory_list trim_a two_terms orEmpty_def orNum_def)

lemma overtaken_after:
  "run directory overtaken (mount today 0) =
     \<lparr>screen = (initialState today)\<lparr>hospitals := [named (js ''a'')], searchTerm := js ''ab'',
                 totalCount := 1, currentPage := 1, isLoading := False\<rparr>,
      timer = None,
      inflight = [],
      sent = [GET (js ''/hospital'') (listParams 1 []),
              GET (js ''/hospital'') (listParams 1 (js ''a'')),
              GET (js ''/hospital'') (listParams 1 (js ''ab''))]\<rparr>"
proof -
  have "overtaken = butlast overtaken @ [Arrive 0]"
    by (simp add: overtaken_def)
  then have "run directory overtaken (mount today 0)
      = arrive directory 0 (run directory (butlast overtaken) (mount today 0))"
    by (metis run_append run.simps step.simps(3))
  then show ?thesis
    unfolding overtaken_before
    by (simp add: arrive_def fetchDone_def initialState_def directory_list trim_a
        orEmpty_def orNum_def)
qed

text \<open>
  C1. The fetch for \<open>a\<close> is superseded by the fetch for \<open>ab\<close>. Its answer arrives
  last and replaces the records the newer query had produced.
\<close>

theorem stale_answer_overwrites:
  "hospitals (screen (run directory (butlast overtaken) (mount (js ''2024-05-17'') 0)))
     = [named (js ''ab'')]
   \<and> searchTerm (screen (run directory overtaken (mount (js ''2024-05-17'') 0))) = js ''ab''
   \<and> last (sent (run directory overtaken (mount (js ''2024-05-17'') 0)))
       = GET (js ''/hospital'') (listParams 1 (js ''ab''))
   \<and> inflight (run directory overtaken (mount (js ''2024-05-17'') 0)) = []
   \<and> hospitals (screen (run directory overtaken (mount (js ''2024-05-17'') 0)))
       = [named (js ''a'')]
   \<and> named (js ''a'') \<noteq> named (js ''ab'')"
proof -
  have "named (js ''a'') ''clinic_name'' \<noteq> named (js ''ab'') ''clinic_name''"
    by (simp add: named_def js_def)
  then have "named (js ''a'') \<noteq> named (js ''ab'')"
    by metis
  then show ?thesis
    by (simp add: overtaken_before overtaken_after)
qed

text \<open>
  C1, witness: the overtaken answer of the session above, and the first list answer of
  the user screen.
\<close>

theorem last_answer_wins_witness:
  "0 < length (inflight (run directory (butlast overtaken) (mount (js ''2024-05-17'') 0)))
   \<and> directory (sent (run directory (butlast overtaken) (mount (js ''2024-05-17'') 0)))
        (snd (inflight (run directory (butlast overtaken) (mount (js ''2024-05-17'') 0)) ! 0))
       = Some \<lparr>status = 200, dataHospitals = Some [named (js ''a'')], dataUsers = None,
               dataTotalCount = Some 1, dataPage = Some 1\<rparr>
   \<and> hospitals (screen (run directory (butlast overtaken @ [Arrive 0])
        (mount (js ''2024-05-17'') 0))) = [named (js ''a'')]
   \<and> searchTerm (screen (run directory (butlast overtaken @ [Arrive 0])
        (mount (js ''2024-05-17'') 0))) = js ''ab''
   \<and> 0 < length (inflight_u (run_u directory [Tick_u 500] (mount_u 0)))
   \<and> directory (sent_u (run_u directory [Tick_u 500] (mount_u 0)))
        (snd (inflight_u (run_u directory [Tick_u 500] (mount_u 0)) ! 0))
       = Some \<lparr>status = 200, dataHospitals = Some [named []], dataUsers = None,
               dataTotalCount = Some 1, dataPage = Some 1\<rparr>
   \<and> users (screen_u (run_u directory ([Tick_u 500] @ [Arrive_u 0]) (mount_u 0))) = []
   \<and> totalCount_u (screen_u (run_u directory ([Tick_u 500] @ [Arrive_u 0]) (mount_u 0))) = 1"
proof -
  let ?rt = "run directory (butlast overtaken) (mount (js ''2024-05-17'') 0)"
  let ?ru = "run_u directory [Tick_u 500] (mount_u 0)"
  let ?r = "\<lparr>status = 200, dataHospitals = Some [named (js ''a'')], dataUsers = None,
               dataTotalCount = Some 1, dataPage = Some 1\<rparr>"
  let ?q = "\<lparr>status = 200, dataHospitals = Some [named []], dataUsers = None,
               dataTotalCount = Some 1, dataPage = Some 1\<rparr>"
  have a: "0 < length (inflight ?rt)"
    by (simp add: overtaken_before)
  have b: "directory (sent ?rt) (snd (inflight ?rt ! 0)) = Some ?r"
    by (simp add: overtaken_before directory_list trim_a)
  have ru: "tick_u 500 (mount_u 0) = \<lparr>screen_u = initialState_u\<lparr>isLoading_u := True, error_u := None\<rparr>,
                  timer_u = None,
                  inflight_u = [(1, GET (js ''/hospitaluser'') (listParams_u 1 [] []))],
                  optionsPending = Some optionsRequest,
                  sent_u = [optionsRequest, GET (js ''/hospitaluser'') (listParams_u 1 [] [])]\<rparr>"
    by (simp add: mount_u_def tick_u_def fetchStart_u_def)
  have c: "0 < length (inflight_u ?ru)"
    by (simp add: ru)
  have "searched (listParams_u 1 [] []) = []"
    by (simp add: searched_def listParams_u_def orUndefined_def trim_a)
  then have d: "directory (sent_u ?ru) (snd (inflight_u ?ru ! 0)) = Some ?q"
    by (simp add: ru directory_def)
  note w = last_answer_wins [where srv = directory and es = "butlast overtaken"
      and rt = "mount (js ''2024-05-17'') 0" and i = 0 and r = ?r
      and es_u = "[Tick_u 500]" and rt_u = "mount_u 0" and j = 0]
  note v = last_answer_wins [where srv = directory and es = "butlast overtaken"
      and rt = "mount (js ''2024-05-17'') 0" and i = 0 and r = ?q
      and es_u = "[Tick_u 500]" and rt_u = "mount_u 0" and j = 0]
  have h: "hospitals (screen (run directory (butlast overtaken @ [Arrive 0])
        (mount (js ''2024-05-17'') 0))) = orEmpty (dataHospitals ?r)"
    "searchTerm (screen (run directory (butlast overtaken @ [Arrive 0])
        (mount (js ''2024-05-17'') 0))) = searchTerm (screen ?rt)"
    using w [THEN conjunct1] a b by blast+
  have u: "users (screen_u (run_u directory ([Tick_u 500] @ [Arrive_u 0]) (mount_u 0)))
        = orEmpty (dataUsers ?q)"
    "totalCount_u (screen_u (run_u directory ([Tick_u 500] @ [Arrive_u 0]) (mount_u 0)))
        = orNum (dataTotalCount ?q) 0"
    using v [THEN conjunct2] c d by blast+
  have e: "orEmpty (dataHospitals ?r) = [named (js ''a'')]" "searchTerm (screen ?rt) = js ''ab''"
    "orEmpty (dataUsers ?q) = []" "orNum (dataTotalCount ?q) 0 = 1"
    by (simp_all add: orEmpty_def orNum_def overtaken_before)
  from a b c d h u e show ?thesis by simp
qed

section \<open>Debounce\<close>

lemma tick_not_due:
  assumes "timer rt = Some (due, term)" and "t < due"
  shows "tick t rt = rt"
  using assms by (simp add: tick_def)

lemma tick_due:
  assumes "timer rt = Some (due, term)" and "due \<le> t"
  shows "tick t rt =
           rt\<lparr>screen := (screen rt)\<lparr>isLoading := True, error := None\<rparr>, timer := None,
              inflight := inflight rt @ [(1, GET (js ''/hospital'') (listParams 1 term))],
              sent := sent rt @ [GET (js ''/hospital'') (listParams 1 term)]\<rparr>"
  using assms by (simp add: tick_def fetchStart_def)

lemma tick_idle:
  assumes "timer rt = None"
  shows "tick t rt = rt"
  using assms by (simp add: tick_def)

lemma tick_u_not_due:
  assumes "timer_u rt = Some (due, term, hosp)" and "t < due"
  shows "tick_u t rt = rt"
  using assms by (simp add: tick_u_def)

lemma tick_u_due:
  assumes "timer_u rt = Some (due, term, hosp)" and "due \<le> t"
  shows "tick_u t rt =
           rt\<lparr>screen_u := (screen_u rt)\<lparr>isLoading_u := True, error_u := None\<rparr>, timer_u := None,
              inflight_u := inflight_u rt
                 @ [(1, GET (js ''/hospitaluser'') (listParams_u 1 term hosp))],
              sent_u := sent_u rt @ [GET (js ''/hospitaluser'') (listParams_u 1 term hosp)]\<rparr>"
  using assms by (simp add: tick_u_def fetchStart_u_def)

lemma burst:
  assumes "a \<noteq> searchTerm (screen (tick t1 rt))" and "t1 \<le> t2" and "t2 < t1 + 500"
    and "t2 + 500 \<le> T"
  shows "sent (run srv [Type t1 a, Type t2 b] rt) = sent (tick t1 rt)"
    and "sent (run srv [Type t1 a, Type t2 b, Tick T] rt)
           = sent (tick t1 rt) @ [GET (js ''/hospital'') (listParams 1 b)]"
    and "timer (run srv [Type t1 a, Type t2 b, Tick T] rt) = None"
    and "searchTerm (screen (run srv [Type t1 a, Type t2 b, Tick T] rt)) = b"
proof -
  define r1 where "r1 = typeSearch t1 a (tick t1 rt)"
  have r1: "timer r1 = Some (t1 + 500, a)" "searchTerm (screen r1) = a"
    "sent r1 = sent (tick t1 rt)"
    using assms(1) by (simp_all add: r1_def typeSearch_def)
  have t2: "tick t2 r1 = r1"
    using r1(1) assms(3) by (rule tick_not_due)
  define r2 where "r2 = typeSearch t2 b r1"
  have r2: "\<exists>due. timer r2 = Some (due, b) \<and> due \<le> T" "searchTerm (screen r2) = b"
    "sent r2 = sent (tick t1 rt)"
    using r1 assms(2,3,4) by (auto simp: r2_def typeSearch_def)
  from r2(1) obtain due where due: "timer r2 = Some (due, b)" "due \<le> T" by blast
  have run2: "run srv [Type t1 a, Type t2 b] rt = r2"
    by (simp add: r1_def [symmetric] t2 r2_def)
  have run3: "run srv [Type t1 a, Type t2 b, Tick T] rt = tick T r2"
    by (simp add: r1_def [symmetric] t2 r2_def)
  show "sent (run srv [Type t1 a, Type t2 b] rt) = sent (tick t1 rt)"
    by (simp only: run2 r2)
  show "sent (run srv [Type t1 a, Type t2 b, Tick T] rt)
           = sent (tick t1 rt) @ [GET (js ''/hospital'') (listParams 1 b)]"
    unfolding run3 tick_due [OF due] by (simp add: r2)
  show "timer (run srv [Type t1 a, Type t2 b, Tick T] rt) = None"
    unfolding run3 tick_due [OF due] by simp
  show "searchTerm (screen (run srv [Type t1 a, Type t2 b, Tick T] rt)) = b"
    unfolding run3 tick_due [OF due] by (simp add: r2)
qed

lemma burst_u:
  assumes "a \<noteq> searchTerm_u (screen_u (tick_u t1 rt))" and "t1 \<le> t2" and "t2 < t1 + 500"
    and "t2 + 500 \<le> T"
  shows "sent_u (run_u srv [Type_u t1 a, Type_u t2 b] rt) = sent_u (tick_u t1 rt)"
    and "sent_u (run_u srv [Type_u t1 a, Type_u t2 b, Tick_u T] rt)
           = sent_u (tick_u t1 rt)
             @ [GET (js ''/hospitaluser'')
                  (listParams_u 1 b (selectedHospital (screen_u (tick_u t1 rt))))]"
    and "timer_u (run_u srv [Type_u t1 a, Type_u t2 b, Tick_u T] rt) = None"
    and "searchTerm_u (screen_u (run_u srv [Type_u t1 a, Type_u t2 b, Tick_u T] rt)) = b"
proof -
  let ?h = "selectedHospital (screen_u (tick_u t1 rt))"
  define r1 where "r1 = typeSearch_u t1 a (tick_u t1 rt)"
  have r1: "timer_u r1 = Some (t1 + 500, a, ?h)" "searchTerm_u (screen_u r1) = a"
    "sent_u r1 = sent_u (tick_u t1 rt)" "selectedHospital (screen_u r1) = ?h"
    using assms(1) by (simp_all add: r1_def typeSearch_u_def)
  have t2: "tick_u t2 r1 = r1"
    using r1(1) assms(3) by (rule tick_u_not_due)
  define r2 where "r2 = typeSearch_u t2 b r1"
  have r2: "\<exists>due. timer_u r2 = Some (due, b, ?h) \<and> due \<le> T" "searchTerm_u (screen_u r2) = b"
    "sent_u r2 = sent_u (tick_u t1 rt)"
    using r1 assms(2,3,4) by (auto simp: r2_def typeSearch_u_def)
  from r2(1) obtain due where due: "timer_u r2 = Some (due, b, ?h)" "due \<le> T" by blast
  have run2: "run_u srv [Type_u t1 a, Type_u t2 b] rt = r2"
    by (simp add: r1_def [symmetric] t2 r2_def)
  have run3: "run_u srv [Type_u t1 a, Type_u t2 b, Tick_u T] rt = tick_u T r2"
    by (simp add: r1_def [symmetric] t2 r2_def)
  show "sent_u (run_u srv [Type_u t1 a, Type_u t2 b] rt) = sent_u (tick_u t1 rt)"
    by (simp only: run2 r2)
  show "sent_u (run_u srv [Type_u t1 a, Type_u t2 b, Tick_u T] rt)
           = sent_u (tick_u t1 rt) @ [GET (js ''/hospitaluser'') (listParams_u 1 b ?h)]"
    unfolding run3 tick_u_due [OF due] by (simp add: r2)
  show "timer_u (run_u srv [Type_u t1 a, Type_u t2 b, Tick_u T] rt) = None"
    unfolding run3 tick_u_due [OF due] by simp
  show "searchTerm_u (screen_u (run_u srv [Type_u t1 a, Type_u t2 b, Tick_u T] rt)) = b"
    unfolding run3 tick_u_due [OF due] by (simp add: r2)
qed

text \<open>
  C9. When a search term \<open>a\<close> is entered at \<open>t1\<close> and a second term \<open>b\<close> within
  500 ms of it, then by any time at least 500 ms after the second entry exactly one
  list fetch has fired beyond what was due before the burst: it requests page 1 with
  the second term, and no timeout is left pending. Until then nothing fires: the
  timeout scheduled for \<open>a\<close> never executes. On both screens.
\<close>

theorem debounced_search:
  assumes "t1 \<le> t2" and "t2 < t1 + 500" and "t2 + 500 \<le> T"
  shows "(a \<noteq> searchTerm (screen (tick t1 rt)) \<longrightarrow>
            sent (run srv [Type t1 a, Type t2 b] rt) = sent (tick t1 rt)
            \<and> sent (run srv [Type t1 a, Type t2 b, Tick T] rt)
                = sent (tick t1 rt) @ [GET (js ''/hospital'') (listParams 1 b)]
            \<and> timer (run srv [Type t1 a, Type t2 b, Tick T] rt) = None
            \<and> searchTerm (screen (run srv [Type t1 a, Type t2 b, Tick T] rt)) = b)
       \<and> (a \<noteq> searchTerm_u (screen_u (tick_u t1 ru)) \<longrightarrow>
            sent_u (run_u srv [Type_u t1 a, Type_u t2 b] ru) = sent_u (tick_u t1 ru)
            \<and> sent_u (run_u srv [Type_u t1 a, Type_u t2 b, Tick_u T] ru)
                = sent_u (tick_u t1 ru)
                  @ [GET (js ''/hospitaluser'')
                       (listParams_u 1 b (selectedHospital (screen_u (tick_u t1 ru))))]
            \<and> timer_u (run_u srv [Type_u t1 a, Type_u t2 b, Tick_u T] ru) = None
            \<and> searchTerm_u (screen_u (run_u srv [Type_u t1 a, Type_u t2 b, Tick_u T] ru)) = b)
       \<and> listParams 1 b ''page'' = Some (Num 1)
       \<and> listParams 1 b ''search'' = map_option Str (orUndefined (trim b))
       \<and> listParams_u 1 b h ''page'' = Some (Num 1)
       \<and> listParams_u 1 b h ''search'' = map_option Str (orUndefined (trim b))"
proof -
  note h = burst [where srv = srv and b = b, OF _ assms]
  note u = burst_u [where srv = srv and b = b, OF _ assms]
  have p: "listParams 1 b ''page'' = Some (Num 1)"
    "listParams 1 b ''search'' = map_option Str (orUndefined (trim b))"
    "listParams_u 1 b h ''page'' = Some (Num 1)"
    "listParams_u 1 b h ''search'' = map_option Str (orUndefined (trim b))"
    by (simp_all add: listParams_def listParams_u_def)
  from h u p show ?thesis by (intro conjI impI)
qed

text \<open>
  C9, witness: on each freshly mounted screen, \<open>a\<close> typed at 1000 ms and \<open>ab\<close> at
  1300 ms; at 1800 ms the requests sent are the initial list fetch and one fetch for
  \<open>ab\<close>.
\<close>

theorem debounced_search_witness:
  "(1000::nat) \<le> 1300 \<and> (1300::nat) < 1000 + 500 \<and> (1300::nat) + 500 \<le> 1800
   \<and> js ''a'' \<noteq> searchTerm (screen (tick 1000 (mount (js ''2024-05-17'') 0)))
   \<and> sent (run offline [Type 1000 (js ''a''), Type 1300 (js ''ab''), Tick 1800]
        (mount (js ''2024-05-17'') 0))
       = [GET (js ''/hospital'') (listParams 1 []), GET (js ''/hospital'') (listParams 1 (js ''ab''))]
   \<and> js ''a'' \<noteq> searchTerm_u (screen_u (tick_u 1000 (mount_u 0)))
   \<and> sent_u (run_u offline [Type_u 1000 (js ''a''), Type_u 1300 (js ''ab''), Tick_u 1800]
        (mount_u 0))
       = [optionsRequest, GET (js ''/hospitaluser'') (listParams_u 1 [] []),
          GET (js ''/hospitaluser'') (listParams_u 1 (js ''ab'') [])]"
proof -
  have t: "(1000::nat) \<le> 1300" "(1300::nat) < 1000 + 500" "(1300::nat) + 500 \<le> 1800"
    by simp_all
  have m: "tick 1000 (mount (js ''2024-05-17'') 0)
      = \<lparr>screen = (initialState (js ''2024-05-17''))\<lparr>isLoading := True, error := None\<rparr>,
         timer = None,
         inflight = [(1, GET (js ''/hospital'') (listParams 1 []))],
         sent = [GET (js ''/hospital'') (listParams 1 [])]\<rparr>"
    by (simp add: mount_def tick_def fetchStart_def)
  have mu: "tick_u 1000 (mount_u 0)
      = \<lparr>screen_u = initialState_u\<lparr>isLoading_u := True, error_u := None\<rparr>,
         timer_u = None,
         inflight_u = [(1, GET (js ''/hospitaluser'') (listParams_u 1 [] []))],
         optionsPending = Some optionsRequest,
         sent_u = [optionsRequest, GET (js ''/hospitaluser'') (listParams_u 1 [] [])]\<rparr>"
    by (simp add: mount_u_def tick_u_def fetchStart_u_def)
  have a: "js ''a'' \<noteq> searchTerm (screen (tick 1000 (mount (js ''2024-05-17'') 0)))"
    unfolding m by (simp add: initialState_def js_def)
  have au: "js ''a'' \<noteq> searchTerm_u (screen_u (tick_u 1000 (mount_u 0)))"
    unfolding mu by (simp add: initialState_u_def js_def)
  have hu: "selectedHospital (screen_u (tick_u 1000 (mount_u 0))) = []"
    by (simp add: mu initialState_u_def)
  note w = debounced_search [OF t, where a = "js ''a''" and b = "js ''ab''" and srv = offline
      and rt = "mount (js ''2024-05-17'') 0" and ru = "mount_u 0"]
  have s1: "sent (run offline [Type 1000 (js ''a''), Type 1300 (js ''ab''), Tick 1800]
        (mount (js ''2024-05-17'') 0))
       = sent (tick 1000 (mount (js ''2024-05-17'') 0))
         @ [GET (js ''/hospital'') (listParams 1 (js ''ab''))]"
    using w [THEN conjunct1] a by blast
  have s2: "sent_u (run_u offline [Type_u 1000 (js ''a''), Type_u 1300 (js ''ab''), Tick_u 1800]
        (mount_u 0))
       = sent_u (tick_u 1000 (mount_u 0))
         @ [GET (js ''/hospitaluser'')
              (listParams_u 1 (js ''ab'') (selectedHospital (screen_u (tick_u 1000 (mount_u 0)))))]"
    using w [THEN conjunct2, THEN conjunct1] au by blast
  have s1': "sent (run offline [Type 1000 (js ''a''), Type 1300 (js ''ab''), Tick 1800]
        (mount (js ''2024-05-17'') 0))
       = [GET (js ''/hospital'') (listParams 1 []), GET (js ''/hospital'') (listParams 1 (js ''ab''))]"
    unfolding s1 by (simp add: m)
  have s2': "sent_u (run_u offline [Type_u 1000 (js ''a''), Type_u 1300 (js ''ab''), Tick_u 1800]
        (mount_u 0))
       = [optionsRequest, GET (js ''/hospitaluser'') (listParams_u 1 [] []),
          GET (js ''/hospitaluser'') (listParams_u 1 (js ''ab'') [])]"
    unfolding s2 hu by (simp add: mu)
  from t a s1' au s2' show ?thesis by (intro conjI)
qed

section \<open>Properties of the pagination window\<close>

lemma map_offset_upt: "map (\<lambda>i. a + int i) [0..<n] = [a..a + int n - 1]"
proof (induction n)
  case 0
  then show ?case by simp
next
  case (Suc n)
  have "[a..a + int (Suc n) - 1] = [a..a + int n - 1] @ [a + int n]"
    using upto_rec2 [of a "a + int n"] by simp
  with Suc show ?case by simp
qed

lemma pageButtons_small:
  assumes "totalPages \<le> 5"
  shows "pageButtons totalPages curPage = [1..totalPages]"
proof -
  have "pageButtons totalPages curPage = map (\<lambda>i. 1 + int i) [0..<nat totalPages]"
    using assms by (simp add: pageButtons_def pageNumber_def min_def add.commute)
  also have "\<dots> = [1..1 + int (nat totalPages) - 1]"
    by (rule map_offset_upt)
  also have "\<dots> = [1..totalPages]"
    by (cases "0 \<le> totalPages") simp_all
  finally show ?thesis .
qed

lemma pageButtons_large:
  assumes "5 < totalPages"
  shows "pageButtons totalPages curPage =
           (if curPage \<le> 3 then [1..5]
            else if totalPages - 2 \<le> curPage then [totalPages - 4..totalPages]
            else [curPage - 2..curPage + 2])"
proof -
  have five: "nat (min totalPages 5) = 5"
    using assms by simp
  have "pageButtons totalPages curPage =
          map (\<lambda>i. (if curPage \<le> 3 then 1
                     else if totalPages - 2 \<le> curPage then totalPages - 4
                     else curPage - 2) + int i) [0..<5]"
    unfolding pageButtons_def five using assms
    by (intro map_cong refl) (simp add: pageNumber_def)
  also have "\<dots> = [(if curPage \<le> 3 then 1
                     else if totalPages - 2 \<le> curPage then totalPages - 4
                     else curPage - 2) ..
                    (if curPage \<le> 3 then 1
                     else if totalPages - 2 \<le> curPage then totalPages - 4
                     else curPage - 2) + int 5 - 1]"
    by (rule map_offset_upt)
  finally show ?thesis by (simp add: add.commute)
qed

lemma length_pageButtons: "length (pageButtons totalPages curPage) \<le> 5"
  by (simp add: pageButtons_def)

text \<open>
  C2. With a single page the numbered buttons are not all pages: the control is behind
  \<open>totalPages > 1\<close> and nothing is rendered.
\<close>

theorem pagination_single_page_not_rendered:
  "paginationControls 1 1 = None"
  by (simp add: paginationControls_def)

text \<open>
  C2 (amended). For every \<open>totalPages \<ge> 2\<close> and current page \<open>curPage\<close> in
  \<open>[1, totalPages]\<close> the control renders at most 5 numbered buttons: all pages when
  \<open>totalPages \<le> 5\<close>, otherwise the 5 consecutive pages starting at
  \<open>curPage - 2\<close> clamped into \<open>[1, totalPages - 4]\<close>, which is \<open>1..5\<close> when
  \<open>curPage \<le> 3\<close> and \<open>totalPages-4..totalPages\<close> when
  \<open>curPage \<ge> totalPages - 2\<close>. With 12 pages the windows for pages 1, 10 and 6
  are \<open>[1..5]\<close>, \<open>[8..12]\<close> and \<open>[4..8]\<close>. With \<open>totalPages \<le> 1\<close> the
  control is not rendered.
\<close>

theorem pagination_window:
  assumes "2 \<le> totalPages" and "1 \<le> curPage" and "curPage \<le> totalPages"
  shows "paginationControls totalPages curPage = Some (pageButtons totalPages curPage)
         \<and> length (pageButtons totalPages curPage) \<le> 5
         \<and> set (pageButtons totalPages curPage) \<subseteq> {1..totalPages}
         \<and> curPage \<in> set (pageButtons totalPages curPage)
         \<and> (totalPages \<le> 5 \<longrightarrow> pageButtons totalPages curPage = [1..totalPages])
         \<and> (5 < totalPages \<longrightarrow>
              pageButtons totalPages curPage =
                [max 1 (min (curPage - 2) (totalPages - 4)) ..
                 max 1 (min (curPage - 2) (totalPages - 4)) + 4])
         \<and> (5 < totalPages \<and> curPage \<le> 3 \<longrightarrow>
              pageButtons totalPages curPage = [1, 2, 3, 4, 5])
         \<and> (5 < totalPages \<and> totalPages - 2 \<le> curPage \<longrightarrow>
              pageButtons totalPages curPage = [totalPages - 4 .. totalPages])
         \<and> paginationControls 12 1 = Some [1, 2, 3, 4, 5]
         \<and> paginationControls 12 10 = Some [8, 9, 10, 11, 12]
         \<and> paginationControls 12 6 = Some [4, 5, 6, 7, 8]
         \<and> (\<forall>n p. n \<le> 1 \<longrightarrow> paginationControls n p = None)"
proof -
  have one_five: "[1..5] = [1, 2, 3, 4, 5::int]"
    by (simp add: upto_rec1)
  have w2: "[8..12] = [8, 9, 10, 11, 12::int]"
    by (simp add: upto_rec1)
  have w3: "[4..8] = [4, 5, 6, 7, 8::int]"
    by (simp add: upto_rec1)
  have ex1: "paginationControls 12 1 = Some [1, 2, 3, 4, 5]"
    by (simp add: paginationControls_def pageButtons_large one_five)
  have ex2: "paginationControls 12 10 = Some [8, 9, 10, 11, 12]"
    by (simp add: paginationControls_def pageButtons_large w2)
  have ex3: "paginationControls 12 6 = Some [4, 5, 6, 7, 8]"
    by (simp add: paginationControls_def pageButtons_large w3)
  have gate: "\<forall>n p. n \<le> 1 \<longrightarrow> paginationControls n p = None"
    by (simp add: paginationControls_def)
  have rendered: "paginationControls totalPages curPage
                    = Some (pageButtons totalPages curPage)"
    using assms by (simp add: paginationControls_def)
  have window: "set (pageButtons totalPages curPage) \<subseteq> {1..totalPages}
         \<and> curPage \<in> set (pageButtons totalPages curPage)
         \<and> (totalPages \<le> 5 \<longrightarrow> pageButtons totalPages curPage = [1..totalPages])
         \<and> (5 < totalPages \<longrightarrow>
              pageButtons totalPages curPage =
                [max 1 (min (curPage - 2) (totalPages - 4)) ..
                 max 1 (min (curPage - 2) (totalPages - 4)) + 4])
         \<and> (5 < totalPages \<and> curPage \<le> 3 \<longrightarrow>
              pageButtons totalPages curPage = [1, 2, 3, 4, 5])
         \<and> (5 < totalPages \<and> totalPages - 2 \<le> curPage \<longrightarrow>
              pageButtons totalPages curPage = [totalPages - 4 .. totalPages])"
  proof (cases "totalPages \<le> 5")
    case True
    with assms show ?thesis
      by (simp add: pageButtons_small)
  next
    case False
    then have big: "5 < totalPages" by simp
    consider (lo) "curPage \<le> 3"
      | (hi) "3 < curPage" "totalPages - 2 \<le> curPage"
      | (mid) "3 < curPage" "curPage < totalPages - 2"
      by linarith
    then show ?thesis
    proof cases
      case lo
      with big assms show ?thesis
        by (auto simp: pageButtons_large one_five max_def min_def)
    next
      case hi
      then have "min (curPage - 2) (totalPages - 4) = totalPages - 4"
        by simp
      with hi big assms show ?thesis
        by (simp add: pageButtons_large max_def)
    next
      case mid
      then have "min (curPage - 2) (totalPages - 4) = curPage - 2"
        by simp
      with mid big assms show ?thesis
        by (simp add: pageButtons_large max_def add.commute)
    qed
  qed
  from rendered length_pageButtons [of totalPages curPage] window ex1 ex2 ex3 gate
  show ?thesis by blast
qed

text \<open>C2, witness: 4 pages, and 12 pages at the start, the end and the middle.\<close>

theorem pagination_window_witness:
  "(2::int) \<le> 4 \<and> (1::int) \<le> 2 \<and> (2::int) \<le> 4
   \<and> paginationControls 4 2 = Some [1, 2, 3, 4]
   \<and> (5::int) < 12 \<and> (1::int) \<le> 3 \<and> pageButtons 12 3 = [1, 2, 3, 4, 5]
   \<and> (12::int) - 2 \<le> 11 \<and> pageButtons 12 11 = [8, 9, 10, 11, 12]
   \<and> pageButtons 12 7 = [5, 6, 7, 8, 9]"
proof -
  have a: "[1..4] = [1, 2, 3, 4::int]"
    by (simp add: upto_rec1)
  have b: "[8..12] = [8, 9, 10, 11, 12::int]"
    by (simp add: upto_rec1)
  have c: "[5..9] = [5, 6, 7, 8, 9::int]"
    by (simp add: upto_rec1)
  have d: "[1..5] = [1, 2, 3, 4, 5::int]"
    by (simp add: upto_rec1)
  show ?thesis
    using pagination_window [of 4 2] pagination_window [of 12 3]
      pagination_window [of 12 11] pagination_window [of 12 7]
    by (simp add: a b c d)
qed

end
